theory Spec2Isabelle
  imports Complex_Main
begin

section \<open>Python and numpy values\<close>

text \<open>
  The program is the class \<open>SOM\<close> of the notebook
  \<open>4-Self_Organizing_Maps/Self-Organizing Feature Maps.ipynb\<close> (Python 3, numpy).
  Python integers are \<open>int\<close>, array shapes are \<open>nat\<close>. Values of type float64 are
  idealised as \<open>real\<close>: rounding, overflow, infinities and NaN are not modelled, so
  every statement below is about the exact arithmetic the code approximates.
  An exception is a value \<open>Inl e\<close> of a sum type. Running out of memory is not
  modelled.
\<close>

datatype error = ValueError | ZeroDivisionError | OverflowError

definition bindE :: "error + 'a \<Rightarrow> ('a \<Rightarrow> error + 'b) \<Rightarrow> error + 'b" where
  "bindE r f = (case r of Inl e \<Rightarrow> Inl e | Inr x \<Rightarrow> f x)"

text \<open>\<open>a / b\<close> on Python numbers: a zero divisor raises.\<close>

definition py_truediv :: "real \<Rightarrow> real \<Rightarrow> error + real" where
  "py_truediv a b = (if b = 0 then Inl ZeroDivisionError else Inr (a / b))"

text \<open>
  The conversion of an \<open>int\<close> operand to a float, as \<open>n / b\<close> with a float \<open>b\<close> makes it
  before it looks at the divisor. The conversion rounds to the nearest float, ties
  to even, so an \<open>int\<close> of absolute value \<open>2^1024 - 2^970\<close> or more has no float
  and raises OverflowError; the rounding of the others is idealised.
\<close>

definition float_int_limit :: int where
  "float_int_limit = 2 ^ 1024 - 2 ^ 970"

definition py_float :: "int \<Rightarrow> error + real" where
  "py_float n = (if float_int_limit \<le> abs n then Inl OverflowError else Inr (real_of_int n))"

text \<open>\<open>math.log(x)\<close>: a math domain error (a ValueError) unless \<open>x > 0\<close>.\<close>

definition math_log :: "real \<Rightarrow> error + real" where
  "math_log x = (if x \<le> 0 then Inl ValueError else Inr (ln x))"

text \<open>\<open>range(n)\<close>, empty when \<open>n \<le> 0\<close>.\<close>

definition py_range :: "int \<Rightarrow> int list" where
  "py_range n = map int [0..<nat n]"

subsection \<open>Arrays\<close>

text \<open>
  A numpy array is its shape and its elements, here as nested lists in row-major
  order. Every operation builds its result by tabulating over the result's shape,
  reading its operands by index.
\<close>

datatype 'a ndarray2 = NDArray2 (shape2: "nat \<times> nat") (data2: "'a list list")

datatype 'a ndarray3 = NDArray3 (shape3: "nat \<times> nat \<times> nat") (data3: "'a list list list")

definition at2 :: "'a ndarray2 \<Rightarrow> nat \<Rightarrow> nat \<Rightarrow> 'a" where
  "at2 a i j = data2 a ! i ! j"

definition at3 :: "'a ndarray3 \<Rightarrow> nat \<Rightarrow> nat \<Rightarrow> nat \<Rightarrow> 'a" where
  "at3 a i j k = data3 a ! i ! j ! k"

definition tab2 :: "nat \<Rightarrow> nat \<Rightarrow> (nat \<Rightarrow> nat \<Rightarrow> 'a) \<Rightarrow> 'a list list" where
  "tab2 x y f = map (\<lambda>i. map (\<lambda>j. f i j) [0..<y]) [0..<x]"

definition tab3 :: "nat \<Rightarrow> nat \<Rightarrow> nat \<Rightarrow> (nat \<Rightarrow> nat \<Rightarrow> nat \<Rightarrow> 'a) \<Rightarrow> 'a list list list" where
  "tab3 x y d f = map (\<lambda>i. map (\<lambda>j. map (\<lambda>k. f i j k) [0..<d]) [0..<y]) [0..<x]"

text \<open>The data of an array agrees with its shape.\<close>

definition wf3 :: "'a ndarray3 \<Rightarrow> bool" where
  "wf3 a = (case shape3 a of (x, y, d) \<Rightarrow> data3 a = tab3 x y d (at3 a))"

text \<open>
  Broadcasting of one axis: equal lengths, or one of them is 1 and is stretched
  (read at index 0 throughout); anything else is numpy's
  \<open>ValueError: operands could not be broadcast together\<close>.
\<close>

definition broadcast_dim :: "nat \<Rightarrow> nat \<Rightarrow> error + nat" where
  "broadcast_dim a b =
     (if a = b then Inr a else if a = 1 then Inr b else if b = 1 then Inr a
      else Inl ValueError)"

definition bidx :: "nat \<Rightarrow> nat \<Rightarrow> nat" where
  "bidx n i = (if n = 1 then 0 else i)"

definition broadcast_shape3 ::
  "nat \<times> nat \<times> nat \<Rightarrow> nat \<times> nat \<times> nat \<Rightarrow> error + nat \<times> nat \<times> nat" where
  "broadcast_shape3 s1 s2 =
     (case s1 of (x1, y1, d1) \<Rightarrow> case s2 of (x2, y2, d2) \<Rightarrow>
        bindE (broadcast_dim x1 x2) (\<lambda>x.
        bindE (broadcast_dim y1 y2) (\<lambda>y.
        bindE (broadcast_dim d1 d2) (\<lambda>d. Inr (x, y, d)))))"

text \<open>An elementwise binary operator \<open>a op b\<close> on two 3-d arrays.\<close>

definition np_binop3 ::
  "('a \<Rightarrow> 'b \<Rightarrow> 'c) \<Rightarrow> 'a ndarray3 \<Rightarrow> 'b ndarray3 \<Rightarrow> error + 'c ndarray3" where
  "np_binop3 f a b =
     bindE (broadcast_shape3 (shape3 a) (shape3 b)) (\<lambda>(x, y, d).
       case shape3 a of (x1, y1, d1) \<Rightarrow> case shape3 b of (x2, y2, d2) \<Rightarrow>
       Inr (NDArray3 (x, y, d)
         (tab3 x y d (\<lambda>i j k. f (at3 a (bidx x1 i) (bidx y1 j) (bidx d1 k))
                                  (at3 b (bidx x2 i) (bidx y2 j) (bidx d2 k))))))"

text \<open>
  The in-place \<open>a += b\<close>: \<open>b\<close> must broadcast to the shape of \<open>a\<close>, which
  cannot grow (\<open>ValueError: non-broadcastable output operand\<close>).
\<close>

definition np_iadd3 :: "real ndarray3 \<Rightarrow> real ndarray3 \<Rightarrow> error + real ndarray3" where
  "np_iadd3 a b =
     bindE (broadcast_shape3 (shape3 a) (shape3 b)) (\<lambda>s.
       if s = shape3 a then np_binop3 (+) a b else Inl ValueError)"

text \<open>A 1-d array of length \<open>l\<close> broadcasts against a 3-d array as shape \<open>(1, 1, l)\<close>.\<close>

definition as3 :: "'a list \<Rightarrow> 'a ndarray3" where
  "as3 v = NDArray3 (1, 1, length v) [[v]]"

definition np_map3 :: "('a \<Rightarrow> 'b) \<Rightarrow> 'a ndarray3 \<Rightarrow> 'b ndarray3" where
  "np_map3 f a =
     (case shape3 a of (x, y, d) \<Rightarrow> NDArray3 (x, y, d) (tab3 x y d (\<lambda>i j k. f (at3 a i j k))))"

definition np_map2 :: "('a \<Rightarrow> 'b) \<Rightarrow> 'a ndarray2 \<Rightarrow> 'b ndarray2" where
  "np_map2 f a =
     (case shape2 a of (x, y) \<Rightarrow> NDArray2 (x, y) (tab2 x y (\<lambda>i j. f (at2 a i j))))"

text \<open>\<open>np.sum(a, 2)\<close>: the sum along the last axis.\<close>

definition np_sum_axis2 :: "'a::comm_monoid_add ndarray3 \<Rightarrow> 'a ndarray2" where
  "np_sum_axis2 a =
     (case shape3 a of (x, y, d) \<Rightarrow>
        NDArray2 (x, y) (tab2 x y (\<lambda>i j. sum_list (map (at3 a i j) [0..<d]))))"

text \<open>\<open>np.expand_dims(a, 2)\<close>: a new last axis of length 1.\<close>

definition np_expand_dims2 :: "'a ndarray2 \<Rightarrow> 'a ndarray3" where
  "np_expand_dims2 a =
     (case shape2 a of (x, y) \<Rightarrow> NDArray3 (x, y, 1) (tab3 x y 1 (\<lambda>i j k. at2 a i j)))"

text \<open>\<open>np.dstack((a, b))\<close> of two 2-d arrays of one shape: shape \<open>(x, y, 2)\<close>.\<close>

definition np_dstack :: "'a ndarray2 \<Rightarrow> 'a ndarray2 \<Rightarrow> 'a ndarray3" where
  "np_dstack a b =
     (case shape2 a of (x, y) \<Rightarrow>
        NDArray3 (x, y, 2) (tab3 x y 2 (\<lambda>i j k. if k = 0 then at2 a i j else at2 b i j)))"

text \<open>The elements in row-major (C) order, as \<open>argmin\<close> without an axis reads them.\<close>

definition ravel2 :: "'a ndarray2 \<Rightarrow> 'a list" where
  "ravel2 a = (case shape2 a of (x, y) \<Rightarrow> map (\<lambda>p. at2 a (p div y) (p mod y)) [0..<x * y])"

text \<open>
  The scan of \<open>argmin\<close>: \<open>p\<close> is the index of the next element, \<open>best\<close> the index of
  the least element so far and \<open>bv\<close> its value. Only a strictly smaller element
  replaces it, so the first occurrence of the minimum is returned.
\<close>

fun argmin_scan :: "real list \<Rightarrow> nat \<Rightarrow> nat \<Rightarrow> real \<Rightarrow> nat" where
  "argmin_scan [] p best bv = best"
| "argmin_scan (v # vs) p best bv =
     (if v < bv then argmin_scan vs (Suc p) p v else argmin_scan vs (Suc p) best bv)"

definition np_argmin :: "real ndarray2 \<Rightarrow> error + nat" where
  "np_argmin a =
     (case ravel2 a of
        [] \<Rightarrow> Inl ValueError
      | v # vs \<Rightarrow> Inr (argmin_scan vs 1 0 v))"

text \<open>\<open>np.unravel_index(idx, (x, y))\<close>: the coordinate of a flat row-major index.\<close>

definition np_unravel_index :: "nat \<Rightarrow> nat \<times> nat \<Rightarrow> error + nat \<times> nat" where
  "np_unravel_index idx s =
     (case s of (x, y) \<Rightarrow>
        if idx < x * y then Inr (idx div y, idx mod y) else Inl ValueError)"

text \<open>
  numpy refuses to create an array whose size in bytes is beyond its largest
  index \<open>2^63 - 1\<close> (\<open>ValueError: array is too big\<close>, or
  \<open>Maximum allowed dimension exceeded\<close>); the size is the item size times the
  dimensions, those that are 0 left out.
\<close>

definition npy_max_intp :: nat where
  "npy_max_intp = 2 ^ 63 - 1"

definition array_too_big :: "nat \<Rightarrow> nat \<times> nat \<times> nat \<Rightarrow> bool" where
  "array_too_big itemsize sh =
     (case sh of (x, y, d) \<Rightarrow>
        npy_max_intp < itemsize * prod_list (filter (\<lambda>n. n \<noteq> 0) [x, y, d]))"

text \<open>
  \<open>np.random.randint(high, size=(x, y, d))\<close>: the draw of the global random state is
  the parameter \<open>rnd\<close>, reduced into \<open>[0, high)\<close>. A negative dimension raises, and so
  does a size beyond numpy's limit; the elements are 8-byte integers.
\<close>

definition np_random_randint ::
  "nat \<Rightarrow> int \<times> int \<times> int \<Rightarrow> (nat \<Rightarrow> nat \<Rightarrow> nat \<Rightarrow> nat) \<Rightarrow> error + nat ndarray3" where
  "np_random_randint high dims rnd =
     (case dims of (x, y, d) \<Rightarrow>
        if x < 0 \<or> y < 0 \<or> d < 0 then Inl ValueError
        else if array_too_big 8 (nat x, nat y, nat d) then Inl ValueError
        else Inr (NDArray3 (nat x, nat y, nat d)
                    (tab3 (nat x) (nat y) (nat d) (\<lambda>i j k. rnd i j k mod high))))"

section \<open>The class SOM\<close>

record SOM =
  weights :: "real ndarray3"
  num_iter :: int
  map_radius :: real
  t_const :: real
  t_step :: int

text \<open>\<open>max(self.weights.shape)\<close> of the 3-tuple.\<close>

definition max_shape :: "nat \<times> nat \<times> nat \<Rightarrow> nat" where
  "max_shape s = (case s of (x, y, d) \<Rightarrow> max x (max y d))"

text \<open>
  \<open>SOM.__init__(self, x_size, y_size, dimen, num_iter, t_step)\<close>. The statements run
  in the source's order, so the first exception wins; on an exception no object
  is produced. In \<open>self.num_iter/math.log(self.map_radius)\<close> the logarithm is taken
  first, then the \<open>int\<close> is converted, then the divisor is looked at.
\<close>

definition SOM_init ::
  "int \<Rightarrow> int \<Rightarrow> int \<Rightarrow> int \<Rightarrow> int \<Rightarrow> (nat \<Rightarrow> nat \<Rightarrow> nat \<Rightarrow> nat) \<Rightarrow> error + SOM" where
  "SOM_init x_size y_size dimen n_iter tstep rnd =
     bindE (np_random_randint 256 (x_size, y_size, dimen) rnd) (\<lambda>r.
       let w = np_map3 real r;
           mr = real (max_shape (shape3 w)) / 2
       in bindE (math_log mr) (\<lambda>l.
          bindE (py_float n_iter) (\<lambda>a.
          bindE (py_truediv a l) (\<lambda>tc.
            Inr \<lparr>weights = w, num_iter = n_iter, map_radius = mr, t_const = tc,
                 t_step = tstep\<rparr>))))"

subsection \<open>Methods as state transformers\<close>

text \<open>
  A method runs on the object \<open>self\<close> and returns a value or raises, together with
  the object as the call leaves it: an exception does not undo assignments made
  before it.
\<close>

type_synonym 'a M = "SOM \<Rightarrow> (error + 'a) \<times> SOM"

definition returnM :: "'a \<Rightarrow> 'a M" where
  "returnM x = (\<lambda>s. (Inr x, s))"

definition liftM :: "error + 'a \<Rightarrow> 'a M" where
  "liftM r = (\<lambda>s. (r, s))"

definition readM :: "(SOM \<Rightarrow> 'a) \<Rightarrow> 'a M" where
  "readM field = (\<lambda>s. (Inr (field s), s))"

definition store_weights :: "real ndarray3 \<Rightarrow> unit M" where
  "store_weights w = (\<lambda>s. (Inr (), s\<lparr>weights := w\<rparr>))"

definition bindM :: "'a M \<Rightarrow> ('a \<Rightarrow> 'b M) \<Rightarrow> 'b M" where
  "bindM m f = (\<lambda>s. case m s of (Inl e, s') \<Rightarrow> (Inl e, s') | (Inr x, s') \<Rightarrow> f x s')"

text \<open>
  \<open>get_bmu\<close>: \<open>distance = np.sum((self.weights - vector) ** 2, 2)\<close>, then
  \<open>np.unravel_index(distance.argmin(), distance.shape)\<close>.
\<close>

definition get_bmu :: "real list \<Rightarrow> (nat \<times> nat) M" where
  "get_bmu vector =
     bindM (readM weights) (\<lambda>w.
     bindM (liftM (np_binop3 (-) w (as3 vector))) (\<lambda>diff.
       let distance = np_sum_axis2 (np_map3 (\<lambda>v. v ^ 2) diff) in
       bindM (liftM (np_argmin distance)) (\<lambda>min_idx.
       liftM (np_unravel_index min_idx (shape2 distance)))))"

text \<open>
  \<open>get_bmu_dist\<close>: \<open>xi\<close> and \<open>yi\<close> hold each cell's first and second coordinate; the
  result is the integer matrix of squared grid distances from the BMU.
\<close>

definition get_bmu_dist :: "real list \<Rightarrow> int ndarray2 M" where
  "get_bmu_dist vector =
     bindM (readM (\<lambda>s. shape3 (weights s))) (\<lambda>(x, y, rgb).
       let xi = NDArray2 (x, y) (tab2 x y (\<lambda>i j. int i));
           yi = NDArray2 (x, y) (tab2 x y (\<lambda>i j. int j))
       in bindM (get_bmu vector) (\<lambda>(b_x, b_y).
          bindM (liftM (np_binop3 (-) (np_dstack xi yi) (as3 [int b_x, int b_y]))) (\<lambda>diff.
          returnM (np_sum_axis2 (np_map3 (\<lambda>v. v ^ 2) diff)))))"

text \<open>
  \<open>get_nbhood_radius\<close>: \<open>self.map_radius * np.exp(-iter_count/self.t_const)\<close>, the
  quotient of two Python numbers. The index is taken to be one that a float holds,
  as is every index that \<open>teach\<close> passes on an object the constructor returned.
\<close>

definition get_nbhood_radius :: "int \<Rightarrow> real M" where
  "get_nbhood_radius iter_count =
     bindM (readM map_radius) (\<lambda>mr.
     bindM (readM t_const) (\<lambda>tc.
     bindM (liftM (py_truediv (- real_of_int iter_count) tc)) (\<lambda>q.
     returnM (mr * exp q))))"

text \<open>
  \<open>teach_row\<close>. The learning rate \<open>lr\<close> is computed and not used afterwards, as in
  the source; the returned array is \<open>np.expand_dims(theta, 2) * (vector - self.weights)\<close>.
  The quotient under \<open>theta\<close> is numpy's, which does not raise; where the radius
  is 0 numpy yields \<open>inf\<close> or \<open>nan\<close> and the model's value \<open>0\<close> of a division by zero
  stands for nothing, so results on \<open>theta\<close> are stated for a radius that is not 0.
\<close>

definition teach_row :: "real list \<Rightarrow> int \<Rightarrow> real ndarray3 M" where
  "teach_row vector i =
     bindM (get_nbhood_radius i) (\<lambda>nbhood_radius.
     bindM (get_bmu_dist vector) (\<lambda>bd.
       let bmu_dist = np_map2 real_of_int bd in
       bindM (readM num_iter) (\<lambda>n.
       bindM (liftM (py_truediv (- real_of_int i) (real_of_int n))) (\<lambda>q.
         let lr = 0.1 * exp q;
             theta = np_map2 (\<lambda>d. exp (- d / (2 * nbhood_radius ^ 2))) bmu_dist
         in bindM (readM weights) (\<lambda>w.
            bindM (liftM (np_binop3 (-) (as3 vector) w)) (\<lambda>diff.
            liftM (np_binop3 (*) (np_expand_dims2 theta) diff)))))))"

text \<open>One run of the loop body \<open>self.weights += self.teach_row(t_set[j], i)\<close>.\<close>

definition teach_step :: "real list \<Rightarrow> int \<Rightarrow> unit M" where
  "teach_step vector i =
     bindM (readM weights) (\<lambda>w.
     bindM (teach_row vector i) (\<lambda>delta.
     bindM (liftM (np_iadd3 w delta)) (\<lambda>w'.
     store_weights w')))"

text \<open>
  \<open>teach\<close>: the inner loop over the samples in their order, the outer loop over
  \<open>range(self.num_iter)\<close>. The progress line printed every tenth iteration goes to
  standard output and is not part of the object.
\<close>

fun teach_samples :: "real list list \<Rightarrow> int \<Rightarrow> unit M" where
  "teach_samples [] i = returnM ()"
| "teach_samples (v # vs) i = bindM (teach_step v i) (\<lambda>_. teach_samples vs i)"

fun teach_iters :: "int list \<Rightarrow> real list list \<Rightarrow> unit M" where
  "teach_iters [] t_set = returnM ()"
| "teach_iters (i # is) t_set = bindM (teach_samples t_set i) (\<lambda>_. teach_iters is t_set)"

definition teach :: "real list list \<Rightarrow> unit M" where
  "teach t_set = bindM (readM num_iter) (\<lambda>n. teach_iters (py_range n) t_set)"

section \<open>Notions of the specification\<close>

text \<open>The reference vector of the lattice cell at grid coordinate \<open>(i, j)\<close>.\<close>

definition cell :: "SOM \<Rightarrow> nat \<Rightarrow> nat \<Rightarrow> real list" where
  "cell s i j = data3 (weights s) ! i ! j"

text \<open>The squared Euclidean distance of two vectors.\<close>

definition sq_dist :: "real list \<Rightarrow> real list \<Rightarrow> real" where
  "sq_dist a b = sum_list (map2 (\<lambda>p q. (p - q) ^ 2) a b)"

text \<open>The squared grid distance of the cell \<open>c\<close> from the BMU \<open>b\<close>.\<close>

definition grid_dist :: "nat \<times> nat \<Rightarrow> nat \<times> nat \<Rightarrow> int" where
  "grid_dist c b = (int (fst c) - int (fst b)) ^ 2 + (int (snd c) - int (snd b)) ^ 2"

text \<open>
  The schedules and the influence \<open>theta\<close> of the BMU \<open>b\<close> on the cell \<open>c\<close> at
  iteration \<open>t\<close>, as formulas over the object's hyperparameters.
\<close>

definition nbhood_radius :: "SOM \<Rightarrow> int \<Rightarrow> real" where
  "nbhood_radius s t = map_radius s * exp (- real_of_int t / t_const s)"

definition learning_rate :: "SOM \<Rightarrow> int \<Rightarrow> real" where
  "learning_rate s t = 0.1 * exp (- real_of_int t / real_of_int (num_iter s))"

definition influence :: "SOM \<Rightarrow> int \<Rightarrow> nat \<times> nat \<Rightarrow> nat \<times> nat \<Rightarrow> real" where
  "influence s t b c = exp (- real_of_int (grid_dist c b) / (2 * nbhood_radius s t ^ 2))"

text \<open>The cells of an \<open>x\<close> by \<open>y\<close> grid in row-major scan order.\<close>

definition grid_cells :: "nat \<Rightarrow> nat \<Rightarrow> (nat \<times> nat) list" where
  "grid_cells x y = concat (map (\<lambda>i. map (\<lambda>j. (i, j)) [0..<y]) [0..<x])"

text \<open>
  \<open>find_bmu\<close> of the specification: the first cell in scan order whose vector is
  at least as close to the input as every cell's; none on a grid without cells.
\<close>

definition find_bmu :: "SOM \<Rightarrow> real list \<Rightarrow> (nat \<times> nat) option" where
  "find_bmu s v =
     (case shape3 (weights s) of (x, y, d) \<Rightarrow>
        find (\<lambda>c. list_all (\<lambda>c'. sq_dist (cell s (fst c) (snd c)) v
                                  \<le> sq_dist (cell s (fst c') (snd c')) v) (grid_cells x y))
          (grid_cells x y))"

text \<open>
  One application of the update to the lattice, for the input \<open>v\<close> at the iteration
  index \<open>t\<close>: the BMU is searched on the lattice as it is, and every cell moves
  towards the input by the influence of the BMU on it. (The learning rate is not
  a factor of the step the code makes, see C1.)
\<close>

definition update_rule :: "real list \<Rightarrow> int \<Rightarrow> SOM \<Rightarrow> SOM" where
  "update_rule v t s =
     (case find_bmu s v of
        None \<Rightarrow> s
      | Some b \<Rightarrow>
          (case shape3 (weights s) of (x, y, d) \<Rightarrow>
             s\<lparr>weights := NDArray3 (x, y, d) (tab3 x y d (\<lambda>i j k.
                  at3 (weights s) i j k
                  + influence s t b (i, j) * (v ! k - at3 (weights s) i j k)))\<rparr>))"

text \<open>
  The training run as the specification describes it: the update applications in
  order, epoch by epoch and sample by sample within an epoch, each on the lattice
  the previous one left. \<open>schedule\<close> lists the pairs of a sample and an iteration
  index in that order, and \<open>apply_updates\<close> runs the loop body over such a list.
\<close>

definition schedule :: "int \<Rightarrow> real list list \<Rightarrow> (real list \<times> int) list" where
  "schedule n t_set = concat (map (\<lambda>i. map (\<lambda>v. (v, i)) t_set) (py_range n))"

fun apply_updates :: "(real list \<times> int) list \<Rightarrow> unit M" where
  "apply_updates [] = returnM ()"
| "apply_updates ((v, t) # us) = bindM (teach_step v t) (\<lambda>_. apply_updates us)"

subsection \<open>Concrete inputs\<close>

text \<open>A random draw of zeros, and one whose value is 100 times the first coordinate.\<close>

definition rnd0 :: "nat \<Rightarrow> nat \<Rightarrow> nat \<Rightarrow> nat" where
  "rnd0 i j k = 0"

definition rnd_rows :: "nat \<Rightarrow> nat \<Rightarrow> nat \<Rightarrow> nat" where
  "rnd_rows i j k = 100 * i"

text \<open>
  The objects that \<open>SOM(1, 1, 1, 10, 1)\<close>, \<open>SOM(1, 1, 3, 1, 1)\<close> and
  \<open>SOM(3, 1, 1, 1, 1)\<close> construct from them.
\<close>

definition som_1x1x1 :: SOM where
  "som_1x1x1 =
     \<lparr>weights = NDArray3 (1, 1, 1) [[[0]]], num_iter = 10, map_radius = 1 / 2,
      t_const = 10 / ln (1 / 2), t_step = 1\<rparr>"

definition som_1x1x3 :: SOM where
  "som_1x1x3 =
     \<lparr>weights = NDArray3 (1, 1, 3) [[[0, 0, 0]]], num_iter = 1, map_radius = 3 / 2,
      t_const = 1 / ln (3 / 2), t_step = 1\<rparr>"

definition som_3x1x1 :: SOM where
  "som_3x1x1 =
     \<lparr>weights = NDArray3 (3, 1, 1) [[[0]], [[100]], [[200]]], num_iter = 1,
      map_radius = 3 / 2, t_const = 1 / ln (3 / 2), t_step = 1\<rparr>"

section \<open>Basic facts\<close>

lemma bindE_simps [simp]:
  "bindE (Inl e) f = Inl e" "bindE (Inr x) f = f x"
  by (simp_all add: bindE_def)

lemma M_simps [simp]:
  "returnM x s = (Inr x, s)"
  "liftM r s = (r, s)"
  "readM g s = (Inr (g s), s)"
  "store_weights w s = (Inr (), s\<lparr>weights := w\<rparr>)"
  by (simp_all add: returnM_def liftM_def readM_def store_weights_def)

lemma bindM_Inr: "m s = (Inr x, s') \<Longrightarrow> bindM m f s = f x s'"
  by (simp add: bindM_def)

lemma bindM_Inl: "m s = (Inl e, s') \<Longrightarrow> bindM m f s = (Inl e, s')"
  by (simp add: bindM_def)

subsection \<open>Tabulated arrays\<close>

lemma length_tab3 [simp]: "length (tab3 x y d f) = x"
  by (simp add: tab3_def)

lemma nth_nth_tab3: "i < x \<Longrightarrow> j < y \<Longrightarrow> tab3 x y d f ! i ! j = map (f i j) [0..<d]"
  by (simp add: tab3_def)

lemma at3_tab3 [simp]:
  "i < x \<Longrightarrow> j < y \<Longrightarrow> k < d \<Longrightarrow> at3 (NDArray3 s (tab3 x y d f)) i j k = f i j k"
  by (simp add: at3_def tab3_def)

lemma at2_tab2 [simp]: "i < x \<Longrightarrow> j < y \<Longrightarrow> at2 (NDArray2 s (tab2 x y f)) i j = f i j"
  by (simp add: at2_def tab2_def)

lemma tab3_cong:
  "(\<And>i j k. i < x \<Longrightarrow> j < y \<Longrightarrow> k < d \<Longrightarrow> f i j k = g i j k) \<Longrightarrow> tab3 x y d f = tab3 x y d g"
  by (simp add: tab3_def)

lemma tab2_cong:
  "(\<And>i j. i < x \<Longrightarrow> j < y \<Longrightarrow> f i j = g i j) \<Longrightarrow> tab2 x y f = tab2 x y g"
  by (simp add: tab2_def)

lemma bidx_less [simp]: "i < n \<Longrightarrow> bidx n i = i"
  by (simp add: bidx_def)

lemma broadcast_dim_simps [simp]:
  "broadcast_dim a a = Inr a" "broadcast_dim a 1 = Inr a" "broadcast_dim 1 b = Inr b"
  "broadcast_dim a (Suc 0) = Inr a" "broadcast_dim (Suc 0) b = Inr b"
  by (auto simp add: broadcast_dim_def)

lemma at3_as3 [simp]: "at3 (as3 v) 0 0 k = v ! k"
  by (simp add: at3_def as3_def)

lemma shape3_as3 [simp]: "shape3 (as3 v) = (1, 1, length v)"
  by (simp add: as3_def)

subsection \<open>Elementwise operators on operands that broadcast\<close>

lemma binop3_vec_right:
  assumes "shape3 a = (x, y, d)" "length v = d"
  shows "np_binop3 f a (as3 v) =
         Inr (NDArray3 (x, y, d) (tab3 x y d (\<lambda>i j k. f (at3 a i j k) (v ! k))))"
  using assms
  by (auto simp add: np_binop3_def broadcast_shape3_def bidx_def intro!: tab3_cong)

lemma binop3_vec_left:
  assumes "shape3 a = (x, y, d)" "length v = d"
  shows "np_binop3 f (as3 v) a =
         Inr (NDArray3 (x, y, d) (tab3 x y d (\<lambda>i j k. f (v ! k) (at3 a i j k))))"
  using assms
  by (auto simp add: np_binop3_def broadcast_shape3_def bidx_def intro!: tab3_cong)

lemma binop3_expand_left:
  assumes "shape2 t = (x, y)" "shape3 a = (x, y, d)"
  shows "np_binop3 f (np_expand_dims2 t) a =
         Inr (NDArray3 (x, y, d) (tab3 x y d (\<lambda>i j k. f (at2 t i j) (at3 a i j k))))"
  using assms
  by (auto simp add: np_binop3_def np_expand_dims2_def broadcast_shape3_def bidx_def
      intro!: tab3_cong)

lemma iadd3_same:
  assumes "shape3 a = (x, y, d)" "shape3 b = (x, y, d)"
  shows "np_iadd3 a b =
         Inr (NDArray3 (x, y, d) (tab3 x y d (\<lambda>i j k. at3 a i j k + at3 b i j k)))"
  using assms
  by (auto simp add: np_iadd3_def np_binop3_def broadcast_shape3_def bidx_def
      intro!: tab3_cong)

subsection \<open>The scan of argmin\<close>

text \<open>
  The scan keeps the invariant that \<open>best\<close> is the first index of a least element
  among the \<open>p\<close> elements read so far.
\<close>

lemma argmin_scan_spec:
  assumes "xs = pre @ vs" "length pre = p" "best < p" "bv = xs ! best"
    and "\<forall>q<p. xs ! best \<le> xs ! q" and "\<forall>q<best. xs ! best < xs ! q"
  shows "argmin_scan vs p best bv < length xs \<and>
         (\<forall>q<length xs. xs ! argmin_scan vs p best bv \<le> xs ! q) \<and>
         (\<forall>q<argmin_scan vs p best bv. xs ! argmin_scan vs p best bv < xs ! q)"
  using assms
proof (induction vs arbitrary: pre p best bv)
  case Nil
  then show ?case by auto
next
  case (Cons v vs)
  have xs: "xs = (pre @ [v]) @ vs" "length (pre @ [v]) = Suc p" "xs ! p = v"
    using Cons.prems by auto
  show ?case
  proof (cases "v < bv")
    case True
    have a: "\<forall>q<Suc p. xs ! p \<le> xs ! q"
      using True Cons.prems xs by (auto simp: less_Suc_eq)
    have b: "\<forall>q<p. xs ! p < xs ! q"
      using True Cons.prems xs by auto
    from Cons.IH[OF xs(1) xs(2) _ _ a b] True xs show ?thesis by simp
  next
    case False
    have a: "\<forall>q<Suc p. xs ! best \<le> xs ! q"
      using False Cons.prems xs by (auto simp: less_Suc_eq)
    from Cons.IH[OF xs(1) xs(2) _ Cons.prems(4) a Cons.prems(6)] False Cons.prems(3)
    show ?thesis by simp
  qed
qed

section \<open>Construction\<close>

lemma max_nat_int:
  assumes "\<not> x < 0" "\<not> y < 0" "\<not> d < 0"
  shows "real (max (nat x) (max (nat y) (nat d))) = real_of_int (max x (max y d))"
proof -
  have "int (max (nat x) (max (nat y) (nat d))) = max x (max y d)"
    using assms by (auto simp add: max_def)
  then show ?thesis by (metis of_int_of_nat_eq)
qed

text \<open>
  What the constructor returns, case by case: \<open>randint\<close> raises on a negative size
  and on a size beyond numpy's limit, \<open>math.log\<close> raises on \<open>map_radius = 0\<close>, the
  conversion of \<open>num_iter\<close> raises when no float holds it, the division raises on
  \<open>log(1) = 0\<close>.
\<close>

lemma SOM_init_cases:
  "SOM_init x y d n ts rnd =
     (if x < 0 \<or> y < 0 \<or> d < 0 \<or> array_too_big 8 (nat x, nat y, nat d) then Inl ValueError
      else if max x (max y d) = 0 then Inl ValueError
      else if float_int_limit \<le> abs n then Inl OverflowError
      else if max x (max y d) = 2 then Inl ZeroDivisionError
      else Inr \<lparr>weights = NDArray3 (nat x, nat y, nat d)
                  (tab3 (nat x) (nat y) (nat d) (\<lambda>i j k. real (rnd i j k mod 256))),
                num_iter = n, map_radius = real_of_int (max x (max y d)) / 2,
                t_const = real_of_int n / ln (real_of_int (max x (max y d)) / 2),
                t_step = ts\<rparr>)"
proof (cases "x < 0 \<or> y < 0 \<or> d < 0 \<or> array_too_big 8 (nat x, nat y, nat d)")
  case True
  then show ?thesis
    by (auto simp add: SOM_init_def np_random_randint_def)
next
  case False
  define m where "m = max x (max y d)"
  have m0: "0 \<le> m"
    using False unfolding m_def by linarith
  have mr: "real (max (nat x) (max (nat y) (nat d))) = real_of_int m"
    using False by (simp add: max_nat_int m_def)
  have w: "np_map3 real (NDArray3 (nat x, nat y, nat d)
             (tab3 (nat x) (nat y) (nat d) (\<lambda>i j k. rnd i j k mod 256)))
      = NDArray3 (nat x, nat y, nat d)
          (tab3 (nat x) (nat y) (nat d) (\<lambda>i j k. real (rnd i j k mod 256)))"
    by (auto simp add: np_map3_def intro!: tab3_cong)
  have ms: "real (max_shape (nat x, nat y, nat d)) / 2 = real_of_int m / 2"
    by (simp add: max_shape_def mr)
  have r: "np_random_randint 256 (x, y, d) rnd =
      Inr (NDArray3 (nat x, nat y, nat d)
             (tab3 (nat x) (nat y) (nat d) (\<lambda>i j k. rnd i j k mod 256)))"
    using False by (simp add: np_random_randint_def)
  have i: "SOM_init x y d n ts rnd =
      bindE (math_log (real_of_int m / 2)) (\<lambda>l.
      bindE (py_float n) (\<lambda>a.
      bindE (py_truediv a l) (\<lambda>tc.
        Inr \<lparr>weights = NDArray3 (nat x, nat y, nat d)
               (tab3 (nat x) (nat y) (nat d) (\<lambda>i j k. real (rnd i j k mod 256))),
             num_iter = n, map_radius = real_of_int m / 2, t_const = tc, t_step = ts\<rparr>)))"
    by (simp add: SOM_init_def r w ms Let_def)
  have l: "math_log (real_of_int m / 2) =
      (if m = 0 then Inl ValueError else Inr (ln (real_of_int m / 2)))"
    using m0 by (simp add: math_log_def)
  have z: "m \<noteq> 0 \<Longrightarrow> (ln (real_of_int m / 2) = 0) = (m = 2)"
    using m0 by simp
  have "SOM_init x y d n ts rnd =
     (if m = 0 then Inl ValueError
      else if float_int_limit \<le> abs n then Inl OverflowError
      else if m = 2 then Inl ZeroDivisionError
      else Inr \<lparr>weights = NDArray3 (nat x, nat y, nat d)
                  (tab3 (nat x) (nat y) (nat d) (\<lambda>i j k. real (rnd i j k mod 256))),
                num_iter = n, map_radius = real_of_int m / 2,
                t_const = real_of_int n / ln (real_of_int m / 2), t_step = ts\<rparr>)"
    by (simp add: i l py_float_def py_truediv_def z)
  then show ?thesis
    using False by (simp add: m_def)
qed

lemma upt_3: "[0..<3] = [0, 1, 2]"
  by (simp add: upt_rec)

text \<open>The sizes and iteration counts of the concrete inputs are within the limits.\<close>

lemma small_arrays [simp]:
  "\<not> array_too_big 8 (Suc 0, Suc 0, Suc 0)" "\<not> array_too_big 8 (Suc 0, Suc 0, 3)"
  "\<not> array_too_big 8 (3, Suc 0, Suc 0)" "\<not> array_too_big 8 (2, 2, Suc 0)"
  "\<not> array_too_big 8 (20, 20, 784)"
  by (simp_all add: array_too_big_def npy_max_intp_def)

lemma small_ints [simp]:
  "\<not> float_int_limit \<le> 0" "\<not> float_int_limit \<le> 1" "\<not> float_int_limit \<le> 10"
  "\<not> float_int_limit \<le> 100"
  by (simp_all add: float_int_limit_def)

lemma init_1x1x3: "SOM_init 1 1 3 1 1 rnd0 = Inr som_1x1x3"
  by (simp add: SOM_init_cases som_1x1x3_def rnd0_def tab3_def upt_3)

lemma init_3x1x1: "SOM_init 3 1 1 1 1 rnd_rows = Inr som_3x1x1"
  by (simp add: SOM_init_cases som_3x1x1_def rnd_rows_def tab3_def upt_3)

text \<open>
  C2. The claim: the stored \<open>map_radius\<close> is \<open>max(width, height) / 2\<close>, whatever the
  vector dimensionality. The code takes the maximum over the whole shape of the
  weight array, the dimensionality included. For the notebook's own MNIST map,
  \<open>SOM(20, 20, 784, 100, 1)\<close>, the stored radius is 392 and not 10.
\<close>

theorem SOM_init_mnist_map_radius:
  "\<exists>s. SOM_init 20 20 784 100 1 rnd0 = Inr s \<and> map_radius s = 392 \<and>
       map_radius s \<noteq> real (max 20 20) / 2"
  by (simp add: SOM_init_cases)

text \<open>
  C7, as stated: every construction whose \<open>map_radius\<close> is at most 1 raises. It does
  not: \<open>SOM(1, 1, 1, 10, 1)\<close> has \<open>map_radius = 1/2\<close> and is constructed, with the
  negative time constant \<open>10 / ln (1/2)\<close>.
\<close>

theorem SOM_init_radius_half_succeeds:
  "SOM_init 1 1 1 10 1 rnd0 =
     Inr \<lparr>weights = NDArray3 (1, 1, 1) [[[0]]], num_iter = 10, map_radius = 1 / 2,
          t_const = 10 / ln (1 / 2), t_step = 1\<rparr>"
  by (simp add: SOM_init_cases rnd0_def tab3_def)

text \<open>
  C7, amended. Take arguments whose dimensionality is not above the larger side
  of the grid, so that \<open>max(width, height) / 2\<close> is the radius on every reading. If
  that radius is at most 1 and is not \<open>1/2\<close> (it is then 1, or 0, or a side is
  negative), the constructor raises and no object is produced.
\<close>

theorem SOM_init_raises_at_radius_0_or_1:
  assumes "d \<le> max x y" "real_of_int (max x y) / 2 \<le> 1" "real_of_int (max x y) / 2 \<noteq> 1 / 2"
  shows "\<exists>e. SOM_init x y d n ts rnd = Inl e"
proof -
  have m: "max x (max y d) = max x y"
    using assms(1) by simp
  have "max x y \<le> 2" "max x y \<noteq> 1"
    using assms(2,3) by auto
  then have "x < 0 \<or> y < 0 \<or> max x y = 0 \<or> max x y = 2"
    by (auto simp add: max_def split: if_splits)
  then show ?thesis
    by (auto simp add: SOM_init_cases m)
qed

theorem SOM_init_raises_at_radius_0_or_1_witness:
  "(1::int) \<le> max 2 2 \<and> real_of_int (max 2 2) / 2 \<le> 1 \<and> real_of_int (max 2 2) / 2 \<noteq> 1 / 2 \<and>
   SOM_init 2 2 1 10 1 rnd0 = Inl ZeroDivisionError"
proof -
  have a: "(1::int) \<le> max 2 2" by simp
  have b: "real_of_int (max 2 2) / 2 \<le> 1" by simp
  have c: "real_of_int (max 2 2) / 2 \<noteq> 1 / 2" by simp
  obtain e where e: "SOM_init 2 2 1 10 1 rnd0 = Inl e"
    using SOM_init_raises_at_radius_0_or_1[OF a b c, of 10 1 rnd0] by blast
  moreover have "SOM_init 2 2 1 10 1 rnd0 \<noteq> Inl ValueError"
    "SOM_init 2 2 1 10 1 rnd0 \<noteq> Inl OverflowError"
    by (simp_all add: SOM_init_cases)
  ultimately have "e = ZeroDivisionError"
    by (cases e) auto
  then show ?thesis using e by simp
qed

section \<open>The search for the best matching unit\<close>

lemma map2_same: "map2 f (map g xs) (map h xs) = map (\<lambda>k. f (g k) (h k)) xs"
  by (induction xs) auto

lemma cell_tab:
  assumes "wf3 (weights s)" "shape3 (weights s) = (x, y, d)" "i < x" "j < y"
  shows "cell s i j = map (at3 (weights s) i j) [0..<d]"
proof -
  have "data3 (weights s) = tab3 x y d (at3 (weights s))"
    using assms(1,2) by (simp add: wf3_def)
  then show ?thesis
    using assms(3,4) by (simp add: cell_def nth_nth_tab3)
qed

lemma sq_dist_cell:
  assumes "wf3 (weights s)" "shape3 (weights s) = (x, y, d)" "i < x" "j < y" "length v = d"
  shows "sq_dist (cell s i j) v = sum_list (map (\<lambda>k. (at3 (weights s) i j k - v ! k) ^ 2) [0..<d])"
proof -
  have v: "v = map (nth v) [0..<d]"
    using assms(5) map_nth[of v] by simp
  have "sq_dist (cell s i j) v = sq_dist (map (at3 (weights s) i j) [0..<d]) (map (nth v) [0..<d])"
    using cell_tab[OF assms(1-4)] v by simp
  then show ?thesis
    by (simp add: sq_dist_def map2_same)
qed

subsection \<open>argmin over the distance matrix\<close>

lemma ravel2_tab2:
  "ravel2 (NDArray2 (x, y) (tab2 x y g)) = map (\<lambda>p. g (p div y) (p mod y)) [0..<x * y]"
proof -
  have "\<And>p. p < x * y \<Longrightarrow> at2 (NDArray2 (x, y) (tab2 x y g)) (p div y) (p mod y) = g (p div y) (p mod y)"
  proof -
    fix p assume p: "p < x * y"
    then have "0 < y" by (cases y) auto
    moreover have "p div y < x" using p by (simp add: less_mult_imp_div_less)
    ultimately show "at2 (NDArray2 (x, y) (tab2 x y g)) (p div y) (p mod y) = g (p div y) (p mod y)"
      by simp
  qed
  then show ?thesis by (simp add: ravel2_def)
qed

lemma np_argmin_empty:
  "x * y = 0 \<Longrightarrow> np_argmin (NDArray2 (x, y) (tab2 x y g)) = Inl ValueError"
  by (simp add: np_argmin_def ravel2_tab2)

lemma np_argmin_first_min:
  assumes "0 < x * y"
  shows "\<exists>p. np_argmin (NDArray2 (x, y) (tab2 x y g)) = Inr p \<and> p < x * y \<and>
           (\<forall>q<x * y. g (p div y) (p mod y) \<le> g (q div y) (q mod y)) \<and>
           (\<forall>q<p. g (p div y) (p mod y) < g (q div y) (q mod y))"
proof -
  define fl where "fl = (\<lambda>p. g (p div y) (p mod y))"
  define xs where "xs = map fl [0..<x * y]"
  have len: "length xs = x * y" by (simp add: xs_def)
  have nth: "\<And>q. q < x * y \<Longrightarrow> xs ! q = fl q" by (simp add: xs_def)
  obtain v vs where vs: "xs = v # vs"
    using assms len by (cases xs) auto
  have rav: "ravel2 (NDArray2 (x, y) (tab2 x y g)) = v # vs"
    using vs by (simp add: ravel2_tab2 xs_def fl_def)
  define p where "p = argmin_scan vs 1 0 v"
  have "p < length xs \<and> (\<forall>q<length xs. xs ! p \<le> xs ! q) \<and> (\<forall>q<p. xs ! p < xs ! q)"
    unfolding p_def
    by (rule argmin_scan_spec[where pre = "[v]"]) (simp_all add: vs)
  then have "p < x * y" "\<forall>q<x * y. fl p \<le> fl q" "\<forall>q<p. fl p < fl q"
    using len nth by auto
  moreover have "np_argmin (NDArray2 (x, y) (tab2 x y g)) = Inr p"
    by (simp add: np_argmin_def rav p_def)
  ultimately show ?thesis
    unfolding fl_def by blast
qed

lemma sq_sum_tab:
  "np_sum_axis2 (np_map3 (\<lambda>v. v ^ 2) (NDArray3 (x, y, d) (tab3 x y d f))) =
   NDArray2 (x, y) (tab2 x y (\<lambda>i j. sum_list (map (\<lambda>k. (f i j k) ^ 2) [0..<d])))"
  by (auto simp add: np_sum_axis2_def np_map3_def intro!: tab2_cong arg_cong[where f = sum_list])

lemma get_bmu_eq:
  assumes "shape3 (weights s) = (x, y, d)" "length v = d"
  shows "get_bmu v s =
     (bindE (np_argmin (NDArray2 (x, y) (tab2 x y
               (\<lambda>i j. sum_list (map (\<lambda>k. (at3 (weights s) i j k - v ! k) ^ 2) [0..<d])))))
        (\<lambda>p. np_unravel_index p (x, y)), s)"
  using assms
  by (simp add: get_bmu_def bindM_def binop3_vec_right sq_sum_tab Let_def bindE_def split: sum.split)


lemma flat_index_less: "i < x \<Longrightarrow> j < y \<Longrightarrow> i * y + j < x * (y::nat)"
proof -
  assume a: "i < x" "j < y"
  then have "i * y + j < i * y + y" by simp
  also have "\<dots> = Suc i * y" by simp
  also have "\<dots> \<le> x * y" using a(1) by (intro mult_le_mono1) simp
  finally show ?thesis .
qed

text \<open>
  C3. On a non-empty lattice and an input vector of the lattice's dimensionality,
  \<open>get_bmu\<close> returns, without changing the object, a coordinate \<open>(b_x, b_y)\<close> of
  the grid whose cell has the least squared Euclidean distance to the input among
  all cells; every cell that precedes it in row-major order (flat index
  \<open>i * y + j\<close>) is strictly farther, so that ties go to the first occurrence; and on
  a lattice whose cells all hold one vector \<open>c\<close> the result is \<open>(0, 0)\<close>.
\<close>

theorem get_bmu_first_global_minimum:
  assumes "wf3 (weights s)" "shape3 (weights s) = (x, y, d)" "length v = d" "0 < x" "0 < y"
  shows "\<exists>b_x b_y. get_bmu v s = (Inr (b_x, b_y), s) \<and> b_x < x \<and> b_y < y \<and>
     (\<forall>i<x. \<forall>j<y. sq_dist (cell s b_x b_y) v \<le> sq_dist (cell s i j) v) \<and>
     (\<forall>i<x. \<forall>j<y. i * y + j < b_x * y + b_y \<longrightarrow>
         sq_dist (cell s b_x b_y) v < sq_dist (cell s i j) v) \<and>
     ((\<forall>i<x. \<forall>j<y. cell s i j = c) \<longrightarrow> (b_x, b_y) = (0, 0))"
proof -
  define g where "g = (\<lambda>i j. sum_list (map (\<lambda>k. (at3 (weights s) i j k - v ! k) ^ 2) [0..<d]))"
  have g: "\<And>i j. i < x \<Longrightarrow> j < y \<Longrightarrow> g i j = sq_dist (cell s i j) v"
    using sq_dist_cell[OF assms(1,2) _ _ assms(3)] by (simp add: g_def)
  have xy: "0 < x * y" using assms(4,5) by simp
  obtain p where p: "np_argmin (NDArray2 (x, y) (tab2 x y g)) = Inr p" "p < x * y"
    "\<forall>q<x * y. g (p div y) (p mod y) \<le> g (q div y) (q mod y)"
    "\<forall>q<p. g (p div y) (p mod y) < g (q div y) (q mod y)"
    using np_argmin_first_min[OF xy, of g] by blast
  define b_x where "b_x = p div y"
  define b_y where "b_y = p mod y"
  have hx: "b_x < x" using p(2) by (simp add: b_x_def less_mult_imp_div_less)
  have hy: "b_y < y" using assms(5) by (simp add: b_y_def)
  have pb: "b_x * y + b_y = p" by (simp add: b_x_def b_y_def)
  have res: "get_bmu v s = (Inr (b_x, b_y), s)"
    using get_bmu_eq[OF assms(2,3)] p(1,2)
    by (simp add: g_def np_unravel_index_def b_x_def b_y_def)
  have ij: "\<And>i j. i < x \<Longrightarrow> j < y \<Longrightarrow> (i * y + j) div y = i \<and> (i * y + j) mod y = j"
    by simp
  have least: "\<forall>i<x. \<forall>j<y. sq_dist (cell s b_x b_y) v \<le> sq_dist (cell s i j) v"
  proof (intro allI impI)
    fix i j assume a: "i < x" "j < y"
    have "g (p div y) (p mod y) \<le> g ((i * y + j) div y) ((i * y + j) mod y)"
      using p(3) flat_index_less[OF a] by blast
    then show "sq_dist (cell s b_x b_y) v \<le> sq_dist (cell s i j) v"
      using g[OF a] g[OF hx hy] a by (simp add: b_x_def b_y_def)
  qed
  have first: "\<forall>i<x. \<forall>j<y. i * y + j < b_x * y + b_y \<longrightarrow>
         sq_dist (cell s b_x b_y) v < sq_dist (cell s i j) v"
  proof (intro allI impI)
    fix i j assume a: "i < x" "j < y" and lt: "i * y + j < b_x * y + b_y"
    have "g (p div y) (p mod y) < g ((i * y + j) div y) ((i * y + j) mod y)"
      using p(4) lt pb by metis
    then show "sq_dist (cell s b_x b_y) v < sq_dist (cell s i j) v"
      using g[OF a] g[OF hx hy] a by (simp add: b_x_def b_y_def)
  qed
  have const: "(\<forall>i<x. \<forall>j<y. cell s i j = c) \<longrightarrow> (b_x, b_y) = (0, 0)"
  proof
    assume c: "\<forall>i<x. \<forall>j<y. cell s i j = c"
    have "p = 0"
    proof (rule ccontr)
      assume "p \<noteq> 0"
      then have "0 * y + 0 < b_x * y + b_y" using pb by simp
      then have "sq_dist (cell s b_x b_y) v < sq_dist (cell s 0 0) v"
        using first assms(4,5) by blast
      then show False using c hx hy assms(4,5) by simp
    qed
    then show "(b_x, b_y) = (0, 0)" by (simp add: b_x_def b_y_def)
  qed
  show ?thesis using res hx hy least first const by blast
qed

lemma wf3_som_3x1x1: "wf3 (weights som_3x1x1)"
  by (simp add: wf3_def som_3x1x1_def tab3_def at3_def upt_3)

theorem get_bmu_first_global_minimum_witness:
  "wf3 (weights som_3x1x1) \<and> shape3 (weights som_3x1x1) = (3, 1, 1) \<and>
   get_bmu [5] som_3x1x1 = (Inr (0, 0), som_3x1x1)"
proof -
  have sh: "shape3 (weights som_3x1x1) = (3, 1, 1)" by (simp add: som_3x1x1_def)
  obtain b_x b_y where b: "get_bmu [5] som_3x1x1 = (Inr (b_x, b_y), som_3x1x1)"
    "b_x < 3" "b_y < 1"
    "\<forall>i<3. \<forall>j<1. sq_dist (cell som_3x1x1 b_x b_y) [5] \<le> sq_dist (cell som_3x1x1 i j) [5]"
    using get_bmu_first_global_minimum[OF wf3_som_3x1x1 sh, of "[5]" "[]"] by auto
  have "sq_dist (cell som_3x1x1 b_x 0) [5] \<le> sq_dist (cell som_3x1x1 0 0) [5]"
    using b(3,4) by auto
  moreover have "b_x = 0 \<or> b_x = 1 \<or> b_x = 2" using b(2) by auto
  ultimately have "b_x = 0"
    by (auto simp add: sq_dist_def cell_def som_3x1x1_def)
  then show ?thesis using b wf3_som_3x1x1 sh by simp
qed

section \<open>The update\<close>

subsection \<open>Methods that only read the object\<close>

lemma bindM_frame:
  assumes "\<And>s. snd (m s) = s" "\<And>x s. snd (f x s) = s"
  shows "snd (bindM m f s) = s"
proof (cases "m s")
  case (Pair r s')
  then have "s' = s" using assms(1)[of s] by simp
  then show ?thesis using Pair assms(2) by (cases r) (simp_all add: bindM_def)
qed

lemma get_bmu_frame: "snd (get_bmu v s) = s"
  unfolding get_bmu_def Let_def by (intro bindM_frame) simp_all

lemma get_bmu_dist_frame: "snd (get_bmu_dist v s) = s"
  unfolding get_bmu_dist_def Let_def case_prod_beta
  by (intro bindM_frame) (simp_all add: get_bmu_frame)

lemma get_nbhood_radius_frame: "snd (get_nbhood_radius t s) = s"
  unfolding get_nbhood_radius_def by (intro bindM_frame) simp_all

lemma teach_row_frame: "snd (teach_row v t s) = s"
  unfolding teach_row_def Let_def
  by (intro bindM_frame) (simp_all add: get_nbhood_radius_frame get_bmu_dist_frame)

subsection \<open>The values they return\<close>

lemma upt_2: "[0..<2] = [0, 1]"
  by (simp add: upt_rec)

lemma get_bmu_dist_eq:
  assumes "shape3 (weights s) = (x, y, d)" "get_bmu v s = (Inr b, s)"
  shows "get_bmu_dist v s = (Inr (NDArray2 (x, y) (tab2 x y (\<lambda>i j. grid_dist (i, j) b))), s)"
proof -
  obtain b_x b_y where b: "b = (b_x, b_y)" by (cases b)
  have ds: "np_dstack (NDArray2 (x, y) (tab2 x y (\<lambda>i j. int i))) (NDArray2 (x, y) (tab2 x y (\<lambda>i j. int j)))
      = NDArray3 (x, y, 2) (tab3 x y 2 (\<lambda>i j k. if k = 0 then int i else int j))"
    by (auto simp add: np_dstack_def intro!: tab3_cong)
  have sub: "np_binop3 (-) (NDArray3 (x, y, 2) (tab3 x y 2 (\<lambda>i j k. if k = 0 then int i else int j)))
        (as3 [int b_x, int b_y])
      = Inr (NDArray3 (x, y, 2) (tab3 x y 2 (\<lambda>i j k. (if k = 0 then int i else int j) - [int b_x, int b_y] ! k)))"
    by (subst binop3_vec_right[where x = x and y = y and d = 2]) (auto intro!: tab3_cong)
  have sm: "np_sum_axis2 (np_map3 (\<lambda>v. v ^ 2)
        (NDArray3 (x, y, 2) (tab3 x y 2 (\<lambda>i j k. (if k = 0 then int i else int j) - [int b_x, int b_y] ! k))))
      = NDArray2 (x, y) (tab2 x y (\<lambda>i j. grid_dist (i, j) b))"
    by (simp add: sq_sum_tab upt_2 grid_dist_def b)
  show ?thesis
    using assms
    by (simp add: get_bmu_dist_def bindM_def Let_def b ds sub sm)
qed

lemma get_nbhood_radius_eq:
  "t_const s \<noteq> 0 \<Longrightarrow> get_nbhood_radius t s = (Inr (nbhood_radius s t), s)"
  by (simp add: get_nbhood_radius_def bindM_def py_truediv_def nbhood_radius_def)

lemma get_nbhood_radius_zero:
  "t_const s = 0 \<Longrightarrow> get_nbhood_radius t s = (Inl ZeroDivisionError, s)"
  by (simp add: get_nbhood_radius_def bindM_def py_truediv_def)

lemma teach_row_eq:
  assumes "shape3 (weights s) = (x, y, d)" "length v = d" "get_bmu v s = (Inr b, s)"
    "t_const s \<noteq> 0" "num_iter s \<noteq> 0"
  shows "teach_row v t s =
     (Inr (NDArray3 (x, y, d) (tab3 x y d (\<lambda>i j k. influence s t b (i, j) * (v ! k - at3 (weights s) i j k)))), s)"
proof -
  have th: "np_map2 (\<lambda>d. exp (- (d / (2 * nbhood_radius s t ^ 2))))
              (np_map2 real_of_int (NDArray2 (x, y) (tab2 x y (\<lambda>i j. grid_dist (i, j) b))))
      = NDArray2 (x, y) (tab2 x y (\<lambda>i j. influence s t b (i, j)))"
    by (auto simp add: np_map2_def influence_def intro!: tab2_cong)
  have mul: "np_binop3 (*) (np_expand_dims2 (NDArray2 (x, y) (tab2 x y (\<lambda>i j. influence s t b (i, j)))))
        (NDArray3 (x, y, d) (tab3 x y d (\<lambda>i j k. v ! k - at3 (weights s) i j k)))
      = Inr (NDArray3 (x, y, d) (tab3 x y d (\<lambda>i j k. influence s t b (i, j) * (v ! k - at3 (weights s) i j k))))"
    by (subst binop3_expand_left[where x = x and y = y and d = d]) (auto intro!: tab3_cong)
  show ?thesis
    using assms(4,5)
    by (simp add: teach_row_def bindM_def Let_def get_nbhood_radius_eq
        get_bmu_dist_eq[OF assms(1,3)] py_truediv_def th binop3_vec_left[OF assms(1,2)] mul)
qed

lemma teach_step_eq:
  assumes "shape3 (weights s) = (x, y, d)" "length v = d" "get_bmu v s = (Inr b, s)"
    "t_const s \<noteq> 0" "num_iter s \<noteq> 0"
  shows "teach_step v t s =
     (Inr (), s\<lparr>weights := NDArray3 (x, y, d) (tab3 x y d
        (\<lambda>i j k. at3 (weights s) i j k + influence s t b (i, j) * (v ! k - at3 (weights s) i j k)))\<rparr>)"
proof -
  have add: "np_iadd3 (weights s)
        (NDArray3 (x, y, d) (tab3 x y d (\<lambda>i j k. influence s t b (i, j) * (v ! k - at3 (weights s) i j k))))
      = Inr (NDArray3 (x, y, d) (tab3 x y d
        (\<lambda>i j k. at3 (weights s) i j k + influence s t b (i, j) * (v ! k - at3 (weights s) i j k))))"
    using assms(1)
    by (subst iadd3_same[where x = x and y = y and d = d]) (auto intro!: tab3_cong)
  show ?thesis
    by (simp add: teach_step_def bindM_def teach_row_eq[OF assms] add)
qed


subsection \<open>One run of the loop body\<close>

lemma teach_step_t_const_zero:
  "t_const s = 0 \<Longrightarrow> teach_step v t s = (Inl ZeroDivisionError, s)"
  by (simp add: teach_step_def teach_row_def bindM_def get_nbhood_radius_zero)

lemma teach_row_num_iter_zero:
  assumes "num_iter s = 0"
  shows "\<exists>e. teach_row v t s = (Inl e, s)"
proof -
  obtain r1 where r1: "get_nbhood_radius t s = (r1, s)"
    using get_nbhood_radius_frame[of t s] by (cases "get_nbhood_radius t s") simp
  obtain r2 where r2: "get_bmu_dist v s = (r2, s)"
    using get_bmu_dist_frame[of v s] by (cases "get_bmu_dist v s") simp
  show ?thesis
    using assms
    by (cases r1; cases r2) (simp_all add: teach_row_def bindM_def r1 r2 py_truediv_def Let_def)
qed

lemma teach_step_num_iter_zero:
  assumes "num_iter s = 0"
  shows "\<exists>e. teach_step v t s = (Inl e, s)"
  using teach_row_num_iter_zero[OF assms, of v t]
  by (auto simp add: teach_step_def bindM_def)

lemma get_bmu_in_range:
  assumes "shape3 (weights s) = (x, y, d)" "length v = d" "get_bmu v s = (Inr (b_x, b_y), s')"
  shows "b_x < x \<and> b_y < y"
proof -
  let ?a = "NDArray2 (x, y) (tab2 x y
      (\<lambda>i j. sum_list (map (\<lambda>k. (at3 (weights s) i j k - v ! k) ^ 2) [0..<d])))"
  have "bindE (np_argmin ?a) (\<lambda>p. np_unravel_index p (x, y)) = Inr (b_x, b_y)"
    using get_bmu_eq[OF assms(1,2)] assms(3) by simp
  then obtain p where "np_unravel_index p (x, y) = Inr (b_x, b_y)"
    by (cases "np_argmin ?a") auto
  then have p: "p < x * y" "b_x = p div y" "b_y = p mod y"
    by (auto simp add: np_unravel_index_def split: if_splits)
  then have "0 < y" by (cases y) auto
  then show ?thesis using p by (simp add: less_mult_imp_div_less)
qed

lemma sq_dist_Cons [simp]: "sq_dist (p # a) (q # b) = (p - q) ^ 2 + sq_dist a b"
  by (simp add: sq_dist_def)

lemma sq_dist_Nil [simp]: "sq_dist [] b = 0"
  by (simp add: sq_dist_def)

lemma sq_dist_nonneg: "0 \<le> sq_dist a b"
  by (auto simp add: sq_dist_def intro!: sum_list_nonneg)

lemma sq_dist_same [simp]: "sq_dist a a = 0"
  by (induction a) simp_all

lemma sq_dist_pos: "length a = length b \<Longrightarrow> a \<noteq> b \<Longrightarrow> 0 < sq_dist a b"
proof (induction a b rule: list_induct2)
  case Nil
  then show ?case by simp
next
  case (Cons p a q b)
  show ?case
  proof (cases "p = q")
    case True
    then show ?thesis using Cons by simp
  next
    case False
    then have "0 < (p - q) ^ 2" by simp
    then have "0 < (p - q) ^ 2 + sq_dist a b"
      using sq_dist_nonneg[of a b] by (rule add_pos_nonneg)
    then show ?thesis by simp
  qed
qed

lemma influence_bmu [simp]: "influence s t b b = 1"
  by (simp add: influence_def grid_dist_def)

text \<open>After an update the cell of the BMU holds the input vector itself.\<close>

lemma teach_step_bmu_cell:
  assumes "shape3 (weights s) = (x, y, d)" "length v = d"
    "get_bmu v s = (Inr (b_x, b_y), s)" "teach_step v t s = (Inr (), s')"
  shows "cell s' b_x b_y = v"
proof -
  have tc: "t_const s \<noteq> 0"
    using teach_step_t_const_zero[of s v t] assms(4) by auto
  have ni: "num_iter s \<noteq> 0"
    using teach_step_num_iter_zero[of s v t] assms(4) by auto
  have r: "b_x < x \<and> b_y < y"
    using get_bmu_in_range[OF assms(1,2,3)] .
  have "s' = s\<lparr>weights := NDArray3 (x, y, d) (tab3 x y d
        (\<lambda>i j k. at3 (weights s) i j k +
            influence s t (b_x, b_y) (i, j) * (v ! k - at3 (weights s) i j k)))\<rparr>"
    using teach_step_eq[OF assms(1,2,3) tc ni, of t] assms(4) by simp
  then have "cell s' b_x b_y = map (nth v) [0..<d]"
    using r by (simp add: cell_def nth_nth_tab3)
  then show ?thesis using assms(2) map_nth[of v] by simp
qed

text \<open>
  C6. When an update of the lattice with an input vector of the lattice's
  dimensionality returns, the cell of the BMU (as \<open>get_bmu\<close> finds it before the
  update) is strictly closer to the input, in squared Euclidean distance, than it
  was, unless it held the input already. The influence at the BMU is
  \<open>exp 0 = 1\<close> and the learning rate does not enter the update, so the cell
  moves all the way onto the input.
\<close>

theorem bmu_moves_strictly_closer:
  assumes "wf3 (weights s)" "shape3 (weights s) = (x, y, d)" "length v = d"
    "map_radius s \<noteq> 0"
    "get_bmu v s = (Inr (b_x, b_y), s)" "teach_step v t s = (Inr (), s')"
    "cell s b_x b_y \<noteq> v"
  shows "sq_dist (cell s' b_x b_y) v < sq_dist (cell s b_x b_y) v"
proof -
  have r: "b_x < x \<and> b_y < y"
    using get_bmu_in_range[OF assms(2,3,5)] .
  have "length (cell s b_x b_y) = length v"
    using cell_tab[OF assms(1,2)] r assms(3) by simp
  then have "0 < sq_dist (cell s b_x b_y) v"
    using assms(7) by (rule sq_dist_pos)
  moreover have "sq_dist (cell s' b_x b_y) v = 0"
    using teach_step_bmu_cell[OF assms(2,3,5,6)] by simp
  ultimately show ?thesis by simp
qed

subsection \<open>An update on a concrete lattice\<close>

lemma get_bmu_som_3x1x1: "get_bmu [5] som_3x1x1 = (Inr (0, 0), som_3x1x1)"
proof -
  have sh: "shape3 (weights som_3x1x1) = (3, 1, 1)" by (simp add: som_3x1x1_def)
  have "get_bmu [5] som_3x1x1 =
     (bindE (np_argmin (NDArray2 (3, 1) (tab2 3 1
               (\<lambda>i j. sum_list (map (\<lambda>k. (at3 (weights som_3x1x1) i j k - [5] ! k) ^ 2) [0..<1])))))
        (\<lambda>p. np_unravel_index p (3, 1)), som_3x1x1)"
    by (rule get_bmu_eq[OF sh]) simp
  also have "\<dots> = (Inr (0, 0), som_3x1x1)"
    by (simp add: som_3x1x1_def np_argmin_def ravel2_def tab2_def at2_def
        at3_def upt_3 np_unravel_index_def)
  finally show ?thesis .
qed

lemma teach_step_som_3x1x1:
  "\<exists>s'. teach_step [5] 0 som_3x1x1 = (Inr (), s') \<and> cell s' 0 0 = [5]"
proof -
  have sh: "shape3 (weights som_3x1x1) = (3, 1, 1)" by (simp add: som_3x1x1_def)
  have tc: "t_const som_3x1x1 \<noteq> 0" by (simp add: som_3x1x1_def)
  have ni: "num_iter som_3x1x1 \<noteq> 0" by (simp add: som_3x1x1_def)
  obtain s' where st: "teach_step [5] 0 som_3x1x1 = (Inr (), s')"
    using teach_step_eq[OF sh _ get_bmu_som_3x1x1 tc ni, of 0] by simp
  show ?thesis
    using st teach_step_bmu_cell[OF sh _ get_bmu_som_3x1x1 st] by simp
qed

theorem bmu_moves_strictly_closer_witness:
  "wf3 (weights som_3x1x1) \<and> map_radius som_3x1x1 \<noteq> 0 \<and>
   get_bmu [5] som_3x1x1 = (Inr (0, 0), som_3x1x1) \<and>
   fst (teach_step [5] 0 som_3x1x1) = Inr () \<and>
   cell som_3x1x1 0 0 \<noteq> [5] \<and>
   sq_dist (cell (snd (teach_step [5] 0 som_3x1x1)) 0 0) [5] < sq_dist (cell som_3x1x1 0 0) [5]"
proof -
  have sh: "shape3 (weights som_3x1x1) = (3, 1, 1)" by (simp add: som_3x1x1_def)
  have mr: "map_radius som_3x1x1 \<noteq> 0" by (simp add: som_3x1x1_def)
  obtain s' where st: "teach_step [5] 0 som_3x1x1 = (Inr (), s')"
    using teach_step_som_3x1x1 by blast
  have ne: "cell som_3x1x1 0 0 \<noteq> [5]" by (simp add: cell_def som_3x1x1_def)
  have "sq_dist (cell s' 0 0) [5] < sq_dist (cell som_3x1x1 0 0) [5]"
    using bmu_moves_strictly_closer[OF wf3_som_3x1x1 sh _ mr get_bmu_som_3x1x1 st ne] by simp
  then show ?thesis
    using wf3_som_3x1x1 mr get_bmu_som_3x1x1 ne by (simp add: st)
qed

text \<open>
  C1. The claim: an update changes every cell by \<open>lr(t) * theta * (input - cell)\<close>.
  The code computes \<open>lr\<close> and never uses it: the change is
  \<open>theta * (input - cell)\<close>. On the lattice of \<open>SOM(3, 1, 1, 1, 1)\<close> with cells
  \<open>[0]\<close>, \<open>[100]\<close>, \<open>[200]\<close>, the input \<open>[5]\<close> at iteration 0 has the BMU
  \<open>(0, 0)\<close>; the code leaves \<open>[5]\<close> in that cell, where the claimed rule, with
  \<open>lr(0) = 0.1\<close> and \<open>theta = 1\<close>, gives \<open>[1/2]\<close>.
\<close>

theorem teach_step_ignores_learning_rate:
  "fst (teach_step [5] 0 som_3x1x1) = Inr () \<and>
   cell (snd (teach_step [5] 0 som_3x1x1)) 0 0 = [5] \<and>
   map (\<lambda>w. w + learning_rate som_3x1x1 0 * influence som_3x1x1 0 (0, 0) (0, 0) * (5 - w))
     (cell som_3x1x1 0 0) = [1 / 2]"
proof -
  obtain s' where st: "teach_step [5] 0 som_3x1x1 = (Inr (), s')" "cell s' 0 0 = [5]"
    using teach_step_som_3x1x1 by blast
  then show ?thesis
    by (simp add: learning_rate_def cell_def som_3x1x1_def)
qed

section \<open>The training loop\<close>

lemma bindM_returnM: "bindM (returnM x) f = f x"
  by (rule ext) (simp add: bindM_def)

lemma bindM_assoc: "bindM (bindM m f) g = bindM m (\<lambda>x. bindM (f x) g)"
  by (rule ext) (simp add: bindM_def split: prod.split sum.split)

lemma apply_updates_append:
  "apply_updates (us @ vs) = bindM (apply_updates us) (\<lambda>_. apply_updates vs)"
proof (induction us)
  case Nil
  show ?case by (simp only: apply_updates.simps append_Nil bindM_returnM)
next
  case (Cons u us)
  obtain v t where u: "u = (v, t)" by (cases u)
  show ?case
    by (simp only: u append_Cons apply_updates.simps bindM_assoc Cons.IH)
qed

lemma teach_samples_updates:
  "teach_samples t_set i = apply_updates (map (\<lambda>v. (v, i)) t_set)"
  by (induction t_set) (simp_all only: teach_samples.simps apply_updates.simps list.map)

lemma teach_iters_updates:
  "teach_iters is t_set = apply_updates (concat (map (\<lambda>i. map (\<lambda>v. (v, i)) t_set) is))"
  by (induction "is")
    (simp_all only: teach_iters.simps apply_updates.simps list.map concat.simps
      apply_updates_append teach_samples_updates)

lemma teach_updates: "teach t_set s = apply_updates (schedule (num_iter s) t_set) s"
  by (simp add: teach_def bindM_def teach_iters_updates schedule_def)

lemma length_schedule: "length (schedule n t_set) = nat n * length t_set"
  by (simp add: schedule_def length_concat py_range_def comp_def sum_list_triv)

lemma nth_concat_blocks:
  assumes "\<And>a. length (f a) = m" "i < length xs" "j < m"
  shows "concat (map f xs) ! (i * m + j) = f (xs ! i) ! j"
  using assms(2)
proof (induction xs arbitrary: i)
  case Nil
  then show ?case by simp
next
  case (Cons a xs)
  show ?case
  proof (cases i)
    case 0
    then show ?thesis using assms(1,3) by (simp add: nth_append)
  next
    case (Suc i')
    then have "i' < length xs" using Cons.prems by simp
    then have "concat (map f xs) ! (i' * m + j) = f (xs ! i') ! j" by (rule Cons.IH)
    then show ?thesis using Suc assms(1)[of a] by (simp add: nth_append)
  qed
qed

lemma nth_schedule:
  assumes "0 \<le> t" "t < n" "j < length t_set"
  shows "schedule n t_set ! (nat t * length t_set + j) = (t_set ! j, t)"
proof -
  have i: "nat t < length (py_range n)" using assms(1,2) by (simp add: py_range_def)
  have "schedule n t_set ! (nat t * length t_set + j)
      = map (\<lambda>v. (v, py_range n ! nat t)) t_set ! j"
    unfolding schedule_def by (rule nth_concat_blocks) (simp_all add: i assms(3))
  also have "\<dots> = (t_set ! j, t)"
    using assms i by (simp add: py_range_def)
  finally show ?thesis .
qed

section \<open>What the methods read and write\<close>

subsection \<open>The field \<open>t_step\<close> is never read\<close>

lemma bindM_t_step:
  assumes "\<And>s. m (s\<lparr>t_step := a\<rparr>) = (fst (m s), (snd (m s))\<lparr>t_step := a\<rparr>)"
    and "\<And>x s. f x (s\<lparr>t_step := a\<rparr>) = (fst (f x s), (snd (f x s))\<lparr>t_step := a\<rparr>)"
  shows "bindM m f (s\<lparr>t_step := a\<rparr>) = (fst (bindM m f s), (snd (bindM m f s))\<lparr>t_step := a\<rparr>)"
proof (cases "m s")
  case (Pair r s')
  then have m: "m (s\<lparr>t_step := a\<rparr>) = (r, s'\<lparr>t_step := a\<rparr>)"
    using assms(1)[of s] by simp
  show ?thesis
    using Pair m assms(2) by (cases r) (simp_all add: bindM_def)
qed

lemma get_bmu_t_step:
  "get_bmu v (s\<lparr>t_step := a\<rparr>) = (fst (get_bmu v s), (snd (get_bmu v s))\<lparr>t_step := a\<rparr>)"
  unfolding get_bmu_def Let_def by (intro bindM_t_step) simp_all

lemma get_bmu_dist_t_step:
  "get_bmu_dist v (s\<lparr>t_step := a\<rparr>) =
     (fst (get_bmu_dist v s), (snd (get_bmu_dist v s))\<lparr>t_step := a\<rparr>)"
  unfolding get_bmu_dist_def Let_def case_prod_beta
  by (intro bindM_t_step) (simp_all add: get_bmu_t_step)

lemma get_nbhood_radius_t_step:
  "get_nbhood_radius t (s\<lparr>t_step := a\<rparr>) =
     (fst (get_nbhood_radius t s), (snd (get_nbhood_radius t s))\<lparr>t_step := a\<rparr>)"
  unfolding get_nbhood_radius_def by (intro bindM_t_step) simp_all

lemma teach_row_t_step:
  "teach_row v t (s\<lparr>t_step := a\<rparr>) =
     (fst (teach_row v t s), (snd (teach_row v t s))\<lparr>t_step := a\<rparr>)"
  unfolding teach_row_def Let_def
  by (intro bindM_t_step) (simp_all add: get_nbhood_radius_t_step get_bmu_dist_t_step)

lemma teach_step_t_step:
  "teach_step v t (s\<lparr>t_step := a\<rparr>) =
     (fst (teach_step v t s), (snd (teach_step v t s))\<lparr>t_step := a\<rparr>)"
  unfolding teach_step_def
  by (intro bindM_t_step) (simp_all add: teach_row_t_step)

lemma teach_samples_t_step:
  "teach_samples vs i (s\<lparr>t_step := a\<rparr>) =
     (fst (teach_samples vs i s), (snd (teach_samples vs i s))\<lparr>t_step := a\<rparr>)"
proof (induction vs arbitrary: s)
  case Nil
  show ?case by simp
next
  case (Cons v vs)
  show ?case
    unfolding teach_samples.simps
    by (intro bindM_t_step) (simp_all add: teach_step_t_step Cons.IH)
qed

lemma teach_iters_t_step:
  "teach_iters is vs (s\<lparr>t_step := a\<rparr>) =
     (fst (teach_iters is vs s), (snd (teach_iters is vs s))\<lparr>t_step := a\<rparr>)"
proof (induction "is" arbitrary: s)
  case Nil
  show ?case by simp
next
  case (Cons i "is")
  show ?case
    unfolding teach_iters.simps
    by (intro bindM_t_step) (simp_all add: teach_samples_t_step Cons.IH)
qed

lemma teach_t_step:
  "teach t_set (s\<lparr>t_step := a\<rparr>) = (fst (teach t_set s), (snd (teach t_set s))\<lparr>t_step := a\<rparr>)"
  unfolding teach_def
  by (intro bindM_t_step) (simp_all add: teach_iters_t_step)

lemma SOM_init_t_step:
  "SOM_init x y d n b rnd = map_sum id (\<lambda>s. s\<lparr>t_step := b\<rparr>) (SOM_init x y d n a rnd)"
  by (simp add: SOM_init_cases)

text \<open>
  C9. Constructions that differ only in the argument \<open>t_step\<close> raise the same
  exception or produce objects that differ only in the field \<open>t_step\<close>; and on two
  objects that differ only in that field, \<open>teach\<close> on one sample set raises or
  returns alike and leaves the same weights.
\<close>

theorem t_step_has_no_effect:
  "SOM_init x y d n b rnd = map_sum id (\<lambda>s. s\<lparr>t_step := b\<rparr>) (SOM_init x y d n a rnd) \<and>
   fst (teach t_set (s\<lparr>t_step := b\<rparr>)) = fst (teach t_set s) \<and>
   weights (snd (teach t_set (s\<lparr>t_step := b\<rparr>))) = weights (snd (teach t_set s))"
  by (simp add: teach_t_step SOM_init_t_step[of x y d n b rnd a])

subsection \<open>Only \<open>teach\<close> assigns, and only to the weights\<close>

lemma bindM_keeps:
  assumes "\<And>s. g (snd (m s)) = g s" "\<And>x s. g (snd (f x s)) = g s"
  shows "g (snd (bindM m f s)) = g s"
proof (cases "m s")
  case (Pair r s')
  then have "g s' = g s" using assms(1)[of s] by simp
  then show ?thesis
    using Pair assms(2) by (cases r) (simp_all add: bindM_def)
qed

lemma teach_step_keeps:
  assumes "\<And>s w. g (s\<lparr>weights := w\<rparr>) = g s"
  shows "g (snd (teach_step v t s)) = g s"
  unfolding teach_step_def
  by (intro bindM_keeps) (simp_all add: teach_row_frame assms)

lemma teach_samples_keeps:
  assumes "\<And>s w. g (s\<lparr>weights := w\<rparr>) = g s"
  shows "g (snd (teach_samples vs i s)) = g s"
proof (induction vs arbitrary: s)
  case Nil
  show ?case by simp
next
  case (Cons v vs)
  show ?case
    unfolding teach_samples.simps
    by (intro bindM_keeps) (simp_all add: teach_step_keeps[of g, OF assms] Cons.IH)
qed

lemma teach_iters_keeps:
  assumes "\<And>s w. g (s\<lparr>weights := w\<rparr>) = g s"
  shows "g (snd (teach_iters is vs s)) = g s"
proof (induction "is" arbitrary: s)
  case Nil
  show ?case by simp
next
  case (Cons i "is")
  show ?case
    unfolding teach_iters.simps
    by (intro bindM_keeps) (simp_all add: teach_samples_keeps[of g, OF assms] Cons.IH)
qed

lemma teach_keeps:
  assumes "\<And>s w. g (s\<lparr>weights := w\<rparr>) = g s"
  shows "g (snd (teach t_set s)) = g s"
  unfolding teach_def
  by (intro bindM_keeps) (simp_all add: teach_iters_keeps[of g, OF assms])

lemma teach_som_3x1x1:
  "\<exists>s'. teach [[5]] som_3x1x1 = (Inr (), s') \<and> cell s' 0 0 = [5]"
proof -
  obtain s' where st: "teach_step [5] 0 som_3x1x1 = (Inr (), s')" "cell s' 0 0 = [5]"
    using teach_step_som_3x1x1 by blast
  have "num_iter som_3x1x1 = 1" by (simp add: som_3x1x1_def)
  then have "teach [[5]] som_3x1x1 = (Inr (), s')"
    using st(1) by (simp add: teach_def bindM_def py_range_def)
  then show ?thesis using st(2) by simp
qed

text \<open>
  C10. \<open>get_bmu\<close>, \<open>get_bmu_dist\<close>, \<open>get_nbhood_radius\<close> and \<open>teach_row\<close> leave the
  object as it was, whatever they return or raise. \<open>teach\<close> leaves every field but
  the weights as it was, and it does change the weights: on the lattice with cells
  \<open>[0]\<close>, \<open>[100]\<close>, \<open>[200]\<close> and the sample set \<open>[[5]]\<close> the weights after the
  call are not the ones before.
\<close>

theorem only_teach_mutates:
  "snd (get_bmu v s) = s \<and> snd (get_bmu_dist v s) = s \<and>
   snd (get_nbhood_radius t s) = s \<and> snd (teach_row v t s) = s \<and>
   num_iter (snd (teach t_set s)) = num_iter s \<and>
   map_radius (snd (teach t_set s)) = map_radius s \<and>
   t_const (snd (teach t_set s)) = t_const s \<and>
   t_step (snd (teach t_set s)) = t_step s \<and>
   weights (snd (teach [[5]] som_3x1x1)) \<noteq> weights som_3x1x1"
proof -
  obtain s' where st: "teach [[5]] som_3x1x1 = (Inr (), s')" "cell s' 0 0 = [5]"
    using teach_som_3x1x1 by blast
  have "cell som_3x1x1 0 0 \<noteq> [5]" by (simp add: cell_def som_3x1x1_def)
  then have "weights s' \<noteq> weights som_3x1x1"
    using st(2) by (auto simp add: cell_def)
  then have "weights (snd (teach [[5]] som_3x1x1)) \<noteq> weights som_3x1x1"
    by (simp add: st(1))
  then show ?thesis
    by (simp add: get_bmu_frame get_bmu_dist_frame get_nbhood_radius_frame teach_row_frame
        teach_keeps)
qed

section \<open>Input vectors of another length\<close>

subsection \<open>The exceptions of the array operations\<close>

lemma broadcast_shape3_error: "broadcast_shape3 s1 s2 = Inl e \<Longrightarrow> e = ValueError"
  by (auto simp add: broadcast_shape3_def broadcast_dim_def bindE_def
      split: prod.splits sum.splits if_splits)

lemma np_binop3_error: "np_binop3 f a b = Inl e \<Longrightarrow> e = ValueError"
  by (auto simp add: np_binop3_def bindE_def split: prod.splits sum.splits
      dest: broadcast_shape3_error)

lemma np_binop3_shape:
  "broadcast_shape3 (shape3 a) (shape3 b) = Inr sh \<Longrightarrow>
   \<exists>dat. np_binop3 f a b = Inr (NDArray3 sh dat)"
  by (auto simp add: np_binop3_def split: prod.splits)

lemma np_binop3_mismatch:
  "broadcast_shape3 (shape3 a) (shape3 b) = Inl e \<Longrightarrow> np_binop3 f a b = Inl ValueError"
  using broadcast_shape3_error[of "shape3 a" "shape3 b" e]
  by (simp add: np_binop3_def)

lemma np_iadd3_cases:
  "np_iadd3 a b = Inl ValueError \<or> (\<exists>dat. np_iadd3 a b = Inr (NDArray3 (shape3 a) dat))"
proof (cases "broadcast_shape3 (shape3 a) (shape3 b)")
  case (Inl e)
  then show ?thesis
    using broadcast_shape3_error[OF Inl] by (simp add: np_iadd3_def)
next
  case (Inr sh)
  then show ?thesis
    using np_binop3_shape[OF Inr, of "(+)"] by (auto simp add: np_iadd3_def)
qed

lemma np_argmin_error: "np_argmin a = Inl e \<Longrightarrow> e = ValueError"
  by (simp add: np_argmin_def split: list.splits)

lemma np_unravel_index_error: "np_unravel_index p sh = Inl e \<Longrightarrow> e = ValueError"
  by (simp add: np_unravel_index_def split: prod.splits if_splits)

subsection \<open>The exceptions of the methods\<close>

lemma get_bmu_cases:
  "get_bmu v s = (Inl ValueError, s) \<or> (\<exists>b. get_bmu v s = (Inr b, s))"
proof -
  obtain r where r: "get_bmu v s = (r, s)"
    using get_bmu_frame[of v s] by (cases "get_bmu v s") simp
  show ?thesis
  proof (cases r)
    case (Inl e)
    then have "e = ValueError"
      using r
      by (auto simp add: get_bmu_def bindM_def Let_def split: sum.splits
          dest: np_binop3_error np_argmin_error np_unravel_index_error)
    then show ?thesis using r Inl by simp
  next
    case (Inr b)
    then show ?thesis using r by simp
  qed
qed

lemma get_bmu_dist_cases:
  "get_bmu_dist v s = (Inl ValueError, s) \<or>
   (\<exists>b. get_bmu v s = (Inr b, s) \<and>
        get_bmu_dist v s =
          (Inr (NDArray2 (fst (shape3 (weights s)), fst (snd (shape3 (weights s))))
             (tab2 (fst (shape3 (weights s))) (fst (snd (shape3 (weights s))))
                (\<lambda>i j. grid_dist (i, j) b))), s))"
proof -
  obtain x y d where sh: "shape3 (weights s) = (x, y, d)"
    by (cases "shape3 (weights s)")
  from get_bmu_cases[of v s] show ?thesis
  proof
    assume "get_bmu v s = (Inl ValueError, s)"
    then show ?thesis
      by (simp add: get_bmu_dist_def bindM_def Let_def split: prod.splits)
  next
    assume "\<exists>b. get_bmu v s = (Inr b, s)"
    then obtain b where b: "get_bmu v s = (Inr b, s)" by blast
    show ?thesis
      using get_bmu_dist_eq[OF sh b] b sh by simp
  qed
qed

text \<open>
  With a time constant and an iteration count that are not 0, \<open>teach_row\<close> raises
  nothing but a ValueError, and what it returns has the shape of
  \<open>vector - self.weights\<close>.
\<close>

lemma teach_row_cases:
  assumes "shape3 (weights s) = (x, y, d)" "t_const s \<noteq> 0" "num_iter s \<noteq> 0"
  shows "teach_row v t s = (Inl ValueError, s) \<or>
     (\<exists>l dat. broadcast_dim (length v) d = Inr l \<and>
        teach_row v t s = (Inr (NDArray3 (x, y, l) dat), s))"
proof -
  from get_bmu_dist_cases[of v s] show ?thesis
  proof
    assume "get_bmu_dist v s = (Inl ValueError, s)"
    then show ?thesis
      using assms(2) by (simp add: teach_row_def bindM_def get_nbhood_radius_eq)
  next
    assume "\<exists>b. get_bmu v s = (Inr b, s) \<and>
        get_bmu_dist v s =
          (Inr (NDArray2 (fst (shape3 (weights s)), fst (snd (shape3 (weights s))))
             (tab2 (fst (shape3 (weights s))) (fst (snd (shape3 (weights s))))
                (\<lambda>i j. grid_dist (i, j) b))), s)"
    then obtain b where bd: "get_bmu_dist v s =
        (Inr (NDArray2 (x, y) (tab2 x y (\<lambda>i j. grid_dist (i, j) b))), s)"
      using assms(1) by auto
    define theta where "theta = np_map2 (\<lambda>d. exp (- d / (2 * nbhood_radius s t ^ 2)))
        (np_map2 real_of_int (NDArray2 (x, y) (tab2 x y (\<lambda>i j. grid_dist (i, j) b))))"
    have th: "shape3 (np_expand_dims2 theta) = (x, y, 1)"
      by (simp add: theta_def np_map2_def np_expand_dims2_def)
    have row: "teach_row v t s =
        (bindE (np_binop3 (-) (as3 v) (weights s))
           (\<lambda>diff. np_binop3 (*) (np_expand_dims2 theta) diff), s)"
      using assms(2,3)
      by (simp add: teach_row_def bindM_def get_nbhood_radius_eq bd py_truediv_def Let_def
          theta_def bindE_def split: sum.split)
    show ?thesis
    proof (cases "broadcast_dim (length v) d")
      case (Inl e)
      then have "broadcast_shape3 (shape3 (as3 v)) (shape3 (weights s)) = Inl e"
        by (simp add: broadcast_shape3_def assms(1))
      then have "np_binop3 (-) (as3 v) (weights s) = Inl ValueError"
        by (rule np_binop3_mismatch)
      then show ?thesis by (simp add: row)
    next
      case (Inr l)
      then have "broadcast_shape3 (shape3 (as3 v)) (shape3 (weights s)) = Inr (x, y, l)"
        by (simp add: broadcast_shape3_def assms(1))
      then obtain dat where diff: "np_binop3 (-) (as3 v) (weights s) = Inr (NDArray3 (x, y, l) dat)"
        using np_binop3_shape by blast
      have "broadcast_shape3 (shape3 (np_expand_dims2 theta)) (shape3 (NDArray3 (x, y, l) dat))
          = Inr (x, y, l)"
        by (simp add: th broadcast_shape3_def)
      then obtain dat' where "np_binop3 (*) (np_expand_dims2 theta) (NDArray3 (x, y, l) dat)
          = Inr (NDArray3 (x, y, l) dat')"
        using np_binop3_shape by blast
      then show ?thesis using Inr by (simp add: row diff)
    qed
  qed
qed

lemma teach_step_cases:
  assumes "shape3 (weights s) = (x, y, d)" "t_const s \<noteq> 0" "num_iter s \<noteq> 0"
  shows "teach_step v t s = (Inl ValueError, s) \<or>
     (broadcast_shape3 (x, y, d) (x, y, length v) = Inr (x, y, d) \<and>
      (\<exists>dat. teach_step v t s = (Inr (), s\<lparr>weights := NDArray3 (x, y, d) dat\<rparr>)))"
proof -
  from teach_row_cases[OF assms, of v t] show ?thesis
  proof
    assume "teach_row v t s = (Inl ValueError, s)"
    then show ?thesis by (simp add: teach_step_def bindM_def)
  next
    assume "\<exists>l dat. broadcast_dim (length v) d = Inr l \<and>
        teach_row v t s = (Inr (NDArray3 (x, y, l) dat), s)"
    then obtain l dat where l: "broadcast_dim (length v) d = Inr l"
      and row: "teach_row v t s = (Inr (NDArray3 (x, y, l) dat), s)" by blast
    have st: "teach_step v t s =
        (case np_iadd3 (weights s) (NDArray3 (x, y, l) dat) of
           Inl e \<Rightarrow> (Inl e, s) | Inr w' \<Rightarrow> (Inr (), s\<lparr>weights := w'\<rparr>))"
      by (simp add: teach_step_def bindM_def row split: sum.split)
    show ?thesis
    proof (cases "length v = d \<or> length v = 1")
      case True
      then have bs: "broadcast_shape3 (x, y, d) (x, y, length v) = Inr (x, y, d)"
        by (auto simp add: broadcast_shape3_def)
      from np_iadd3_cases[of "weights s" "NDArray3 (x, y, l) dat"] show ?thesis
        using bs by (auto simp add: st assms(1))
    next
      case False
      then have ld: "l \<noteq> d" "l \<noteq> 1 \<or> d \<noteq> 1"
        using l by (auto simp add: broadcast_dim_def split: if_splits)
      then have "broadcast_shape3 (shape3 (weights s)) (shape3 (NDArray3 (x, y, l) dat)) = Inl ValueError
          \<or> (\<exists>k. broadcast_shape3 (shape3 (weights s)) (shape3 (NDArray3 (x, y, l) dat)) = Inr (x, y, k) \<and> k \<noteq> d)"
        using l False by (auto simp add: broadcast_shape3_def broadcast_dim_def assms(1) split: if_splits)
      then have "np_iadd3 (weights s) (NDArray3 (x, y, l) dat) = Inl ValueError"
        by (auto simp add: np_iadd3_def assms(1))
      then show ?thesis by (simp add: st)
    qed
  qed
qed


subsection \<open>A sample of another length in the training set\<close>

lemma teach_step_mismatch:
  assumes "shape3 (weights s) = (x, y, d)" "t_const s \<noteq> 0" "num_iter s \<noteq> 0"
    "length v \<noteq> d" "length v \<noteq> 1"
  shows "teach_step v t s = (Inl ValueError, s)"
proof -
  have "broadcast_shape3 (x, y, d) (x, y, length v) \<noteq> Inr (x, y, d)"
    using assms(4,5) by (auto simp add: broadcast_shape3_def broadcast_dim_def)
  then show ?thesis
    using teach_step_cases[OF assms(1,2,3), of v t] by blast
qed

lemma teach_samples_mismatch:
  assumes "shape3 (weights s) = (x, y, d)" "t_const s \<noteq> 0" "num_iter s \<noteq> 0"
    "length v \<noteq> d" "length v \<noteq> 1" "v \<in> set vs"
  shows "\<exists>s'. teach_samples vs i s = (Inl ValueError, s')"
  using assms(1,2,3,6)
proof (induction vs arbitrary: s)
  case Nil
  then show ?case by simp
next
  case (Cons u us)
  from teach_step_cases[OF Cons.prems(1,2,3), of u i] show ?case
  proof
    assume "teach_step u i s = (Inl ValueError, s)"
    then show ?thesis by (simp add: bindM_def)
  next
    assume "broadcast_shape3 (x, y, d) (x, y, length u) = Inr (x, y, d) \<and>
      (\<exists>dat. teach_step u i s = (Inr (), s\<lparr>weights := NDArray3 (x, y, d) dat\<rparr>))"
    then obtain dat where st: "teach_step u i s = (Inr (), s\<lparr>weights := NDArray3 (x, y, d) dat\<rparr>)"
      by blast
    have "u \<noteq> v"
      using st teach_step_mismatch[OF Cons.prems(1,2,3) assms(4,5), of i] by auto
    then have "v \<in> set us" using Cons.prems(4) by simp
    then have "\<exists>s'. teach_samples us i (s\<lparr>weights := NDArray3 (x, y, d) dat\<rparr>) = (Inl ValueError, s')"
      using Cons.prems(2,3) by (intro Cons.IH) simp_all
    then show ?thesis by (simp add: bindM_def st)
  qed
qed

lemma teach_mismatch:
  assumes "shape3 (weights s) = (x, y, d)" "t_const s \<noteq> 0" "0 < num_iter s"
    "length v \<noteq> d" "length v \<noteq> 1" "v \<in> set t_set"
  shows "\<exists>s'. teach t_set s = (Inl ValueError, s')"
proof -
  have ni: "num_iter s \<noteq> 0" using assms(3) by simp
  obtain s' where s': "teach_samples t_set 0 s = (Inl ValueError, s')"
    using teach_samples_mismatch[OF assms(1,2) ni assms(4,5,6), of 0] by blast
  have "[0..<nat (num_iter s)] = 0 # [Suc 0..<nat (num_iter s)]"
    using assms(3) by (simp add: upt_conv_Cons)
  then have "py_range (num_iter s) = 0 # map int [Suc 0..<nat (num_iter s)]"
    by (simp add: py_range_def)
  then have "teach t_set s = (Inl ValueError, s')"
    by (simp add: teach_def bindM_def s')
  then show ?thesis by blast
qed

text \<open>
  C8, as stated: every input vector whose length differs from the dimensionality
  makes the update raise. A vector of length 1 does not: numpy broadcasts it over
  the last axis. On the one-cell lattice of \<open>SOM(1, 1, 3, 1, 1)\<close>, with the cell
  \<open>[0, 0, 0]\<close>, the update with the input \<open>[5]\<close> of length 1 returns and leaves
  \<open>[5, 5, 5]\<close> in the cell.
\<close>

theorem teach_step_broadcasts_length_1:
  "SOM_init 1 1 3 1 1 rnd0 = Inr som_1x1x3 \<and>
   length [5::real] \<noteq> 3 \<and> shape3 (weights som_1x1x3) = (1, 1, 3) \<and>
   teach_step [5] 0 som_1x1x3 =
     (Inr (), som_1x1x3\<lparr>weights := NDArray3 (1, 1, 3) [[[5, 5, 5]]]\<rparr>)"
  by (simp add: init_1x1x3 teach_step_def teach_row_def get_nbhood_radius_def get_bmu_dist_def get_bmu_def
      bindM_def som_1x1x3_def np_binop3_def broadcast_shape3_def broadcast_dim_def bidx_def
      np_iadd3_def np_map3_def np_map2_def np_sum_axis2_def np_expand_dims2_def np_dstack_def
      np_argmin_def ravel2_def np_unravel_index_def py_truediv_def tab3_def tab2_def at3_def at2_def
      as3_def upt_3 upt_2 Let_def)

text \<open>
  C8, amended. On an object with a time constant other than 0 and a positive
  number of iterations, as the constructor makes them, an input vector whose
  length is neither the dimensionality nor 1 makes one update raise a ValueError
  and leave the object as it was; and a training set that holds such a vector
  makes \<open>teach\<close> raise a ValueError.
\<close>

theorem dimension_mismatch_raises:
  assumes "shape3 (weights s) = (x, y, d)" "t_const s \<noteq> 0" "0 < num_iter s"
    "length v \<noteq> d" "length v \<noteq> 1"
  shows "teach_step v t s = (Inl ValueError, s) \<and>
     (v \<in> set t_set \<longrightarrow> (\<exists>s'. teach t_set s = (Inl ValueError, s')))"
proof -
  have ni: "num_iter s \<noteq> 0" using assms(3) by simp
  show ?thesis
    using teach_step_mismatch[OF assms(1,2) ni assms(4,5)] teach_mismatch[OF assms]
    by blast
qed

theorem dimension_mismatch_raises_witness:
  "shape3 (weights som_1x1x3) = (1, 1, 3) \<and> t_const som_1x1x3 \<noteq> 0 \<and>
   0 < num_iter som_1x1x3 \<and> length [1::real, 2] \<noteq> 3 \<and> length [1::real, 2] \<noteq> 1 \<and>
   teach_step [1, 2] 0 som_1x1x3 = (Inl ValueError, som_1x1x3) \<and>
   (\<exists>s'. teach [[0, 0, 0], [1, 2]] som_1x1x3 = (Inl ValueError, s'))"
proof -
  have a: "shape3 (weights som_1x1x3) = (1, 1, 3)" by (simp add: som_1x1x3_def)
  have b: "t_const som_1x1x3 \<noteq> 0" by (simp add: som_1x1x3_def)
  have c: "0 < num_iter som_1x1x3" by (simp add: som_1x1x3_def)
  have d: "length [1::real, 2] \<noteq> 3" "length [1::real, 2] \<noteq> 1" by simp_all
  have e: "[1::real, 2] \<in> set [[0, 0, 0], [1, 2]]" by simp
  show ?thesis
    using dimension_mismatch_raises[OF a b c d, of 0 "[[0, 0, 0], [1, 2]]"] a b c d e
    by blast
qed

section \<open>The objects the code reaches\<close>

text \<open>
  The hypotheses of the results above hold of every object the constructor
  returns, and \<open>teach\<close> keeps them: the weights stay well-shaped and of one shape,
  the radius is positive, and the time constant is \<open>num_iter / ln map_radius\<close>,
  which is not 0 unless \<open>num_iter\<close> is.
\<close>

lemma wf3_tab3: "wf3 (NDArray3 (x, y, d) (tab3 x y d f))"
  by (auto simp add: wf3_def intro!: tab3_cong)

lemma np_binop3_wf3: "np_binop3 f a b = Inr c \<Longrightarrow> wf3 c"
  by (auto simp add: np_binop3_def bindE_def wf3_tab3 split: sum.splits prod.splits)

lemma np_iadd3_wf3: "np_iadd3 a b = Inr c \<Longrightarrow> wf3 c \<and> shape3 c = shape3 a"
proof -
  assume c: "np_iadd3 a b = Inr c"
  from np_iadd3_cases[of a b] c have "shape3 c = shape3 a" by auto
  moreover have "np_binop3 (+) a b = Inr c"
    using c by (auto simp add: np_iadd3_def bindE_def split: sum.splits if_splits)
  ultimately show ?thesis using np_binop3_wf3 by blast
qed

lemma SOM_init_object:
  assumes "SOM_init x y d n ts rnd = Inr s"
  shows "wf3 (weights s) \<and> shape3 (weights s) = (nat x, nat y, nat d) \<and>
     0 < map_radius s \<and> num_iter s = n \<and>
     t_const s = real_of_int n / ln (map_radius s) \<and> (n \<noteq> 0 \<longrightarrow> t_const s \<noteq> 0)"
proof -
  define m where "m = max x (max y d)"
  have neg: "\<not> (x < 0 \<or> y < 0 \<or> d < 0 \<or> array_too_big 8 (nat x, nat y, nat d))"
    and m0: "m \<noteq> 0" and fl: "\<not> float_int_limit \<le> abs n" and m2: "m \<noteq> 2"
    using assms unfolding m_def by (auto simp add: SOM_init_cases split: if_splits)
  have mpos: "0 < m" using neg m0 unfolding m_def by linarith
  have s: "s = \<lparr>weights = NDArray3 (nat x, nat y, nat d)
                  (tab3 (nat x) (nat y) (nat d) (\<lambda>i j k. real (rnd i j k mod 256))),
                num_iter = n, map_radius = real_of_int m / 2,
                t_const = real_of_int n / ln (real_of_int m / 2), t_step = ts\<rparr>"
    using assms neg m0 fl m2 unfolding m_def by (simp add: SOM_init_cases)
  have "ln (real_of_int m / 2) \<noteq> 0" using mpos m2 by simp
  then show ?thesis
    using mpos by (simp add: s wf3_tab3)
qed

lemma bindM_preserves:
  assumes "\<And>s. P s \<Longrightarrow> P (snd (m s))" "\<And>x s. P s \<Longrightarrow> P (snd (f x s))" "P s"
  shows "P (snd (bindM m f s))"
proof (cases "m s")
  case (Pair r s')
  then have "P s'" using assms(1)[OF assms(3)] by simp
  then show ?thesis
    using Pair assms(2) by (cases r) (simp_all add: bindM_def)
qed

lemma teach_step_shape:
  assumes "wf3 (weights s) \<and> shape3 (weights s) = sh"
  shows "wf3 (weights (snd (teach_step v t s))) \<and> shape3 (weights (snd (teach_step v t s))) = sh"
proof -
  obtain r where row: "teach_row v t s = (r, s)"
    using teach_row_frame[of v t s] by (cases "teach_row v t s") simp
  show ?thesis
  proof (cases r)
    case (Inl e)
    then show ?thesis using assms by (simp add: teach_step_def bindM_def row)
  next
    case (Inr delta)
    show ?thesis
    proof (cases "np_iadd3 (weights s) delta")
      case (Inl e)
      then show ?thesis using assms by (simp add: teach_step_def bindM_def row Inr)
    next
      case (Inr w')
      then show ?thesis
        using assms np_iadd3_wf3[OF Inr] by (simp add: teach_step_def bindM_def row \<open>r = Inr delta\<close>)
    qed
  qed
qed

lemma teach_samples_shape:
  assumes "wf3 (weights s) \<and> shape3 (weights s) = sh"
  shows "wf3 (weights (snd (teach_samples vs i s))) \<and>
     shape3 (weights (snd (teach_samples vs i s))) = sh"
  using assms
proof (induction vs arbitrary: s)
  case Nil
  then show ?case by simp
next
  case (Cons v vs)
  show ?case
    unfolding teach_samples.simps
    by (rule bindM_preserves[where P = "\<lambda>s. wf3 (weights s) \<and> shape3 (weights s) = sh"])
      (simp_all only: teach_step_shape Cons.IH Cons.prems)
qed

lemma teach_iters_shape:
  assumes "wf3 (weights s) \<and> shape3 (weights s) = sh"
  shows "wf3 (weights (snd (teach_iters is vs s))) \<and>
     shape3 (weights (snd (teach_iters is vs s))) = sh"
  using assms
proof (induction "is" arbitrary: s)
  case Nil
  then show ?case by simp
next
  case (Cons i "is")
  show ?case
    unfolding teach_iters.simps
    by (rule bindM_preserves[where P = "\<lambda>s. wf3 (weights s) \<and> shape3 (weights s) = sh"])
      (simp_all only: teach_samples_shape Cons.IH Cons.prems)
qed

lemma teach_shape:
  assumes "wf3 (weights s) \<and> shape3 (weights s) = sh"
  shows "wf3 (weights (snd (teach t_set s))) \<and> shape3 (weights (snd (teach t_set s))) = sh"
  using teach_iters_shape[OF assms] by (simp add: teach_def bindM_def)

section \<open>The decay of the neighbourhood radius\<close>

lemma init_1x1x1: "SOM_init 1 1 1 10 1 rnd0 = Inr som_1x1x1"
  by (simp add: SOM_init_cases som_1x1x1_def rnd0_def tab3_def)

lemma init_3x1x1_no_iterations:
  "SOM_init 3 1 1 0 1 rnd_rows = Inr (som_3x1x1\<lparr>num_iter := 0, t_const := 0\<rparr>)"
  by (simp add: SOM_init_cases som_3x1x1_def rnd_rows_def tab3_def upt_3)

text \<open>
  C4, as stated: the radius starts at \<open>map_radius\<close> and strictly decreases over
  \<open>[0, N)\<close>. On the object of \<open>SOM(1, 1, 1, 10, 1)\<close>, whose \<open>map_radius\<close> is \<open>1/2\<close> and
  whose time constant is negative, the radius at iteration 1 is above the radius
  at iteration 0. On the object of \<open>SOM(3, 1, 1, 0, 1)\<close>, whose time constant is 0,
  \<open>get_nbhood_radius(0)\<close> raises ZeroDivisionError.
\<close>

theorem nbhood_radius_grows_below_radius_1:
  "SOM_init 1 1 1 10 1 rnd0 = Inr som_1x1x1 \<and>
   get_nbhood_radius 0 som_1x1x1 = (Inr (1 / 2), som_1x1x1) \<and>
   get_nbhood_radius 1 som_1x1x1 = (Inr (nbhood_radius som_1x1x1 1), som_1x1x1) \<and>
   1 / 2 < nbhood_radius som_1x1x1 1 \<and>
   SOM_init 3 1 1 0 1 rnd_rows = Inr (som_3x1x1\<lparr>num_iter := 0, t_const := 0\<rparr>) \<and>
   get_nbhood_radius 0 (som_3x1x1\<lparr>num_iter := 0, t_const := 0\<rparr>) =
     (Inl ZeroDivisionError, som_3x1x1\<lparr>num_iter := 0, t_const := 0\<rparr>)"
proof -
  have tc: "t_const som_1x1x1 \<noteq> 0" by (simp add: som_1x1x1_def)
  have "ln (1 / 2 :: real) < 0" by simp
  then have "0 < - 1 / (10 / ln (1 / 2 :: real))"
    by (simp add: field_simps)
  then have "1 < exp (- 1 / (10 / ln (1 / 2 :: real)))" by simp
  then have gr: "1 / 2 < nbhood_radius som_1x1x1 1"
    by (simp add: nbhood_radius_def som_1x1x1_def)
  have z: "nbhood_radius som_1x1x1 0 = 1 / 2"
    by (simp add: nbhood_radius_def som_1x1x1_def)
  show ?thesis
    using init_1x1x1 init_3x1x1_no_iterations gr z
    by (simp add: get_nbhood_radius_eq[OF tc] get_nbhood_radius_zero)
qed

text \<open>
  C4, amended. For an object the constructor returns with \<open>map_radius > 1\<close> and
  \<open>N = num_iter > 0\<close>, in exact arithmetic: the time constant \<open>N / ln map_radius\<close>
  is positive; \<open>get_nbhood_radius(0)\<close> is \<open>map_radius\<close>; at every index \<open>t\<close> of
  \<open>[0, N)\<close> the method returns \<open>map_radius * exp (- t / t_const)\<close>, which lies above 1
  and not above \<open>map_radius\<close>; and that value is positive for every \<open>t\<close> and strictly
  smaller at the later of two indices.
\<close>

theorem nbhood_radius_schedule_above_radius_1:
  assumes "SOM_init x y d n ts rnd = Inr s" "1 < map_radius s" "0 < n"
  shows "t_const s = real_of_int n / ln (map_radius s) \<and> 0 < t_const s \<and>
     get_nbhood_radius 0 s = (Inr (map_radius s), s) \<and>
     (\<forall>t. 0 \<le> t \<and> t < n \<longrightarrow>
        get_nbhood_radius t s = (Inr (map_radius s * exp (- real_of_int t / t_const s)), s) \<and>
        1 < map_radius s * exp (- real_of_int t / t_const s) \<and>
        map_radius s * exp (- real_of_int t / t_const s) \<le> map_radius s) \<and>
     (\<forall>t. 0 < map_radius s * exp (- real_of_int t / t_const s)) \<and>
     (\<forall>t1 t2. t1 < t2 \<longrightarrow>
        map_radius s * exp (- real_of_int t2 / t_const s)
        < map_radius s * exp (- real_of_int t1 / t_const s))"
proof -
  have tcd: "t_const s = real_of_int n / ln (map_radius s)"
    using SOM_init_object[OF assms(1)] by simp
  have ln: "0 < ln (map_radius s)" using assms(2) by simp
  have tc: "0 < t_const s" using tcd assms(3) ln by simp
  then have tc0: "t_const s \<noteq> 0" by simp
  have mr: "0 < map_radius s" using assms(2) by simp
  have val: "\<And>t. get_nbhood_radius t s =
      (Inr (map_radius s * exp (- real_of_int t / t_const s)), s)"
    using get_nbhood_radius_eq[OF tc0] by (simp add: nbhood_radius_def)
  have pos: "\<forall>t. 0 < map_radius s * exp (- real_of_int t / t_const s)"
    using mr by simp
  have dec: "\<forall>t1 t2. t1 < t2 \<longrightarrow>
        map_radius s * exp (- real_of_int t2 / t_const s)
        < map_radius s * exp (- real_of_int t1 / t_const s)"
  proof (intro allI impI)
    fix t1 t2 :: int assume "t1 < t2"
    then have "- real_of_int t2 / t_const s < - real_of_int t1 / t_const s"
      using tc by (simp add: divide_strict_right_mono)
    then have "exp (- real_of_int t2 / t_const s) < exp (- real_of_int t1 / t_const s)"
      by simp
    then show "map_radius s * exp (- real_of_int t2 / t_const s)
        < map_radius s * exp (- real_of_int t1 / t_const s)"
      using mr by simp
  qed
  have last: "map_radius s * exp (- real_of_int n / t_const s) = 1"
  proof -
    have "- real_of_int n / t_const s = - ln (map_radius s)"
      using tcd assms(3) ln by simp
    then show ?thesis using mr by (simp add: exp_minus)
  qed
  have rng: "\<forall>t. 0 \<le> t \<and> t < n \<longrightarrow>
        get_nbhood_radius t s = (Inr (map_radius s * exp (- real_of_int t / t_const s)), s) \<and>
        1 < map_radius s * exp (- real_of_int t / t_const s) \<and>
        map_radius s * exp (- real_of_int t / t_const s) \<le> map_radius s"
  proof (intro allI impI)
    fix t :: int assume t: "0 \<le> t \<and> t < n"
    have lo: "1 < map_radius s * exp (- real_of_int t / t_const s)"
      using dec t last by metis
    have "- real_of_int t / t_const s \<le> 0" using t tc by simp
    then have "exp (- real_of_int t / t_const s) \<le> 1" by simp
    then have hi: "map_radius s * exp (- real_of_int t / t_const s) \<le> map_radius s"
      using mr by simp
    show "get_nbhood_radius t s = (Inr (map_radius s * exp (- real_of_int t / t_const s)), s) \<and>
        1 < map_radius s * exp (- real_of_int t / t_const s) \<and>
        map_radius s * exp (- real_of_int t / t_const s) \<le> map_radius s"
      using val lo hi by simp
  qed
  have zero: "get_nbhood_radius 0 s = (Inr (map_radius s), s)"
    using val[of 0] by simp
  show ?thesis using tcd tc zero rng pos dec by blast
qed

theorem nbhood_radius_schedule_above_radius_1_witness:
  "SOM_init 3 1 1 1 1 rnd_rows = Inr som_3x1x1 \<and> 1 < map_radius som_3x1x1 \<and> (0::int) < 1 \<and>
   t_const som_3x1x1 = 1 / ln (3 / 2) \<and>
   get_nbhood_radius 0 som_3x1x1 = (Inr (3 / 2), som_3x1x1)"
proof -
  have b: "1 < map_radius som_3x1x1" by (simp add: som_3x1x1_def)
  have c: "(0::int) < 1" by simp
  have "get_nbhood_radius 0 som_3x1x1 = (Inr (map_radius som_3x1x1), som_3x1x1)"
    using nbhood_radius_schedule_above_radius_1[OF init_3x1x1 b c] by blast
  moreover have "map_radius som_3x1x1 = 3 / 2" "t_const som_3x1x1 = 1 / ln (3 / 2)"
    by (simp_all add: som_3x1x1_def)
  ultimately show ?thesis using init_3x1x1 b by simp
qed

section \<open>The training run\<close>

subsection \<open>The scan order of the grid\<close>

lemma length_grid_cells: "length (grid_cells x y) = x * y"
  by (simp add: grid_cells_def length_concat comp_def sum_list_triv)

lemma nth_grid_cells: "i < x \<Longrightarrow> j < y \<Longrightarrow> grid_cells x y ! (i * y + j) = (i, j)"
proof -
  assume a: "i < x" "j < y"
  have "concat (map (\<lambda>i. map (\<lambda>j. (i, j)) [0..<y]) [0..<x]) ! (i * y + j)
      = map (\<lambda>j. ([0..<x] ! i, j)) [0..<y] ! j"
    by (rule nth_concat_blocks) (simp_all add: a)
  then show ?thesis using a by (simp add: grid_cells_def)
qed

lemma nth_grid_cells_flat: "q < x * y \<Longrightarrow> grid_cells x y ! q = (q div y, q mod y)"
proof -
  assume q: "q < x * y"
  then have y: "0 < y" by (cases y) auto
  have "q div y < x" using q by (simp add: less_mult_imp_div_less)
  then have "grid_cells x y ! (q div y * y + q mod y) = (q div y, q mod y)"
    using y by (intro nth_grid_cells) simp_all
  then show ?thesis by simp
qed

subsection \<open>\<open>get_bmu\<close> finds the BMU of the specification\<close>

lemma get_bmu_flat:
  assumes "wf3 (weights s)" "shape3 (weights s) = (x, y, d)" "length v = d" "0 < x" "0 < y"
  shows "\<exists>p<x * y. get_bmu v s = (Inr (p div y, p mod y), s) \<and>
     (\<forall>q<x * y. sq_dist (cell s (p div y) (p mod y)) v \<le> sq_dist (cell s (q div y) (q mod y)) v) \<and>
     (\<forall>q<p. sq_dist (cell s (p div y) (p mod y)) v < sq_dist (cell s (q div y) (q mod y)) v)"
proof -
  define g where "g = (\<lambda>i j. sum_list (map (\<lambda>k. (at3 (weights s) i j k - v ! k) ^ 2) [0..<d]))"
  have g: "\<And>q. q < x * y \<Longrightarrow> g (q div y) (q mod y) = sq_dist (cell s (q div y) (q mod y)) v"
  proof -
    fix q assume "q < x * y"
    then have "q div y < x" "q mod y < y"
      using assms(5) by (simp_all add: less_mult_imp_div_less)
    then show "g (q div y) (q mod y) = sq_dist (cell s (q div y) (q mod y)) v"
      using sq_dist_cell[OF assms(1,2) _ _ assms(3)] by (simp add: g_def)
  qed
  have xy: "0 < x * y" using assms(4,5) by simp
  obtain p where p: "np_argmin (NDArray2 (x, y) (tab2 x y g)) = Inr p" "p < x * y"
    "\<forall>q<x * y. g (p div y) (p mod y) \<le> g (q div y) (q mod y)"
    "\<forall>q<p. g (p div y) (p mod y) < g (q div y) (q mod y)"
    using np_argmin_first_min[OF xy, of g] by blast
  have res: "get_bmu v s = (Inr (p div y, p mod y), s)"
    using get_bmu_eq[OF assms(2,3)] p(1,2) by (simp add: g_def np_unravel_index_def)
  have least: "\<forall>q<x * y. sq_dist (cell s (p div y) (p mod y)) v
      \<le> sq_dist (cell s (q div y) (q mod y)) v"
    using p(2,3) g by simp
  have first: "\<forall>q<p. sq_dist (cell s (p div y) (p mod y)) v
      < sq_dist (cell s (q div y) (q mod y)) v"
    using p(2,4) g by simp
  show ?thesis using p(2) res least first by blast
qed

lemma get_bmu_find_bmu:
  assumes "wf3 (weights s)" "shape3 (weights s) = (x, y, d)" "length v = d" "0 < x" "0 < y"
  shows "\<exists>b. get_bmu v s = (Inr b, s) \<and> find_bmu s v = Some b \<and> fst b < x \<and> snd b < y"
proof -
  obtain p where p: "p < x * y" "get_bmu v s = (Inr (p div y, p mod y), s)"
    "\<forall>q<x * y. sq_dist (cell s (p div y) (p mod y)) v \<le> sq_dist (cell s (q div y) (q mod y)) v"
    "\<forall>q<p. sq_dist (cell s (p div y) (p mod y)) v < sq_dist (cell s (q div y) (q mod y)) v"
    using get_bmu_flat[OF assms] by blast
  let ?P = "\<lambda>c. list_all (\<lambda>c'. sq_dist (cell s (fst c) (snd c)) v
                                  \<le> sq_dist (cell s (fst c') (snd c')) v) (grid_cells x y)"
  have here: "?P (grid_cells x y ! p)"
    using p(1,3) by (simp add: list_all_length length_grid_cells nth_grid_cells_flat)
  have before: "\<forall>q<p. \<not> ?P (grid_cells x y ! q)"
  proof (intro allI impI notI)
    fix q assume q: "q < p" and P: "?P (grid_cells x y ! q)"
    have "sq_dist (cell s (q div y) (q mod y)) v \<le> sq_dist (cell s (p div y) (p mod y)) v"
      using P p(1) q
      by (auto simp add: list_all_length length_grid_cells nth_grid_cells_flat dest!: spec[where x = p])
    then show False using p(4) q by fastforce
  qed
  have "find ?P (grid_cells x y) = Some (grid_cells x y ! p)"
    unfolding find_Some_iff using here before p(1) by (auto simp add: length_grid_cells)
  then have "find_bmu s v = Some (p div y, p mod y)"
    using p(1) by (simp add: find_bmu_def assms(2) nth_grid_cells_flat)
  moreover have "p div y < x" "p mod y < y"
    using p(1) assms(5) by (simp_all add: less_mult_imp_div_less)
  ultimately show ?thesis using p(2) by auto
qed


subsection \<open>The loop body applies the update\<close>

lemma teach_step_update_rule:
  assumes "wf3 (weights s)" "shape3 (weights s) = (x, y, d)" "length v = d" "0 < x" "0 < y"
    "t_const s \<noteq> 0" "num_iter s \<noteq> 0"
  shows "teach_step v t s = (Inr (), update_rule v t s)"
proof -
  obtain b where b: "get_bmu v s = (Inr b, s)" "find_bmu s v = Some b"
    using get_bmu_find_bmu[OF assms(1-5)] by blast
  show ?thesis
    using teach_step_eq[OF assms(2,3) b(1) assms(6,7), of t]
    by (simp add: update_rule_def b(2) assms(2))
qed

lemma update_rule_object:
  assumes "wf3 (weights s)" "shape3 (weights s) = (x, y, d)"
  shows "wf3 (weights (update_rule v t s)) \<and> shape3 (weights (update_rule v t s)) = (x, y, d) \<and>
     t_const (update_rule v t s) = t_const s \<and> num_iter (update_rule v t s) = num_iter s"
  using assms by (simp add: update_rule_def wf3_tab3 split: option.split)

lemma apply_updates_fold:
  assumes "wf3 (weights s)" "shape3 (weights s) = (x, y, d)" "0 < x" "0 < y"
    "t_const s \<noteq> 0" "num_iter s \<noteq> 0" "\<forall>u \<in> set us. length (fst u) = d"
  shows "apply_updates us s = (Inr (), fold (\<lambda>(v, t). update_rule v t) us s)"
  using assms(1,2,5,6,7)
proof (induction us arbitrary: s)
  case Nil
  show ?case by simp
next
  case (Cons u us)
  obtain v t where u: "u = (v, t)" by (cases u)
  have len: "length v = d" using Cons.prems(5) u by simp
  have st: "teach_step v t s = (Inr (), update_rule v t s)"
    using teach_step_update_rule[OF Cons.prems(1,2) len assms(3,4) Cons.prems(3,4)] .
  have ob: "wf3 (weights (update_rule v t s))" "shape3 (weights (update_rule v t s)) = (x, y, d)"
    "t_const (update_rule v t s) \<noteq> 0" "num_iter (update_rule v t s) \<noteq> 0"
    using update_rule_object[OF Cons.prems(1,2), of v t] Cons.prems(3,4) by simp_all
  have "apply_updates us (update_rule v t s)
      = (Inr (), fold (\<lambda>(v, t). update_rule v t) us (update_rule v t s))"
    using ob Cons.prems(5) by (intro Cons.IH) simp_all
  then show ?case by (simp add: u bindM_def st)
qed

lemma set_schedule: "u \<in> set (schedule n t_set) \<Longrightarrow> fst u \<in> set t_set"
  by (auto simp add: schedule_def)

lemma schedule_no_iterations: "n \<le> 0 \<Longrightarrow> schedule n t_set = []"
  by (simp add: schedule_def py_range_def)

text \<open>
  C5. On a well-shaped lattice with at least one cell and a sample set whose
  vectors have the lattice's dimensionality, \<open>teach\<close> returns, and the object it
  leaves is the one that the updates of the schedule make of the initial object,
  applied one after the other from the first: each update searches its BMU on the
  lattice the update before it left. The schedule of \<open>N\<close> iterations over \<open>S\<close>
  samples has \<open>N * S\<close> entries, and its entry number \<open>t * S + j\<close> is the sample \<open>j\<close>
  at the iteration index \<open>t\<close>: the epochs are the outer order, the samples the
  inner one, and all updates of an epoch carry the same index.
\<close>

theorem teach_applies_the_schedule_in_order:
  assumes "wf3 (weights s)" "shape3 (weights s) = (x, y, d)" "0 < x" "0 < y"
    "\<forall>v \<in> set t_set. length v = d" "0 < num_iter s \<longrightarrow> t_const s \<noteq> 0"
  shows "teach t_set s =
       (Inr (), fold (\<lambda>(v, t). update_rule v t) (schedule (num_iter s) t_set) s) \<and>
     length (schedule (num_iter s) t_set) = nat (num_iter s) * length t_set \<and>
     (\<forall>t j. 0 \<le> t \<and> t < num_iter s \<and> j < length t_set \<longrightarrow>
        schedule (num_iter s) t_set ! (nat t * length t_set + j) = (t_set ! j, t))"
proof -
  have run: "teach t_set s =
       (Inr (), fold (\<lambda>(v, t). update_rule v t) (schedule (num_iter s) t_set) s)"
  proof (cases "0 < num_iter s")
    case True
    then have tc: "t_const s \<noteq> 0" and ni: "num_iter s \<noteq> 0"
      using assms(6) by simp_all
    have "\<forall>u \<in> set (schedule (num_iter s) t_set). length (fst u) = d"
      using assms(5) set_schedule by blast
    then show ?thesis
      using apply_updates_fold[OF assms(1-4) tc ni] by (simp add: teach_updates)
  next
    case False
    then show ?thesis
      by (simp add: teach_updates schedule_no_iterations)
  qed
  show ?thesis
    using run length_schedule nth_schedule by blast
qed

subsection \<open>Two updates on a concrete lattice\<close>

lemma update_rule_bmu_cell:
  assumes "shape3 (weights s) = (x, y, d)" "length v = d" "find_bmu s v = Some (b_x, b_y)"
    "b_x < x" "b_y < y"
  shows "cell (update_rule v t s) b_x b_y = v"
proof -
  have "cell (update_rule v t s) b_x b_y = map (nth v) [0..<d]"
    using assms by (simp add: update_rule_def cell_def nth_nth_tab3)
  then show ?thesis using assms(2) map_nth[of v] by simp
qed

lemma find_bmu_first_cell:
  assumes "wf3 (weights s)" "shape3 (weights s) = (x, y, d)" "length v = d" "0 < x" "0 < y"
    "cell s 0 0 = v"
  shows "find_bmu s v = Some (0, 0)"
proof -
  have c: "grid_cells x y ! 0 = (0, 0)"
    using nth_grid_cells[OF assms(4,5)] by simp
  have "0 < length (grid_cells x y)"
    using assms(4,5) by (simp add: length_grid_cells)
  then obtain c' cs where cs: "grid_cells x y = c' # cs"
    by (cases "grid_cells x y") auto
  then have "grid_cells x y = (0, 0) # cs" using c by simp
  then show ?thesis
    using assms(6)
    by (simp add: find_bmu_def assms(2) list_all_iff sq_dist_nonneg)
qed

theorem teach_applies_the_schedule_in_order_witness:
  "wf3 (weights som_3x1x1) \<and> shape3 (weights som_3x1x1) = (3, 1, 1) \<and>
   length [5::real] = 1 \<and> t_const som_3x1x1 \<noteq> 0 \<and>
   schedule (num_iter som_3x1x1) [[5], [5]] = [([5], 0), ([5], 0)] \<and>
   teach [[5], [5]] som_3x1x1 = (Inr (), update_rule [5] 0 (update_rule [5] 0 som_3x1x1)) \<and>
   cell som_3x1x1 0 0 = [0] \<and>
   cell (snd (teach [[5], [5]] som_3x1x1)) 0 0 = [5]"
proof -
  have sh: "shape3 (weights som_3x1x1) = (3, 1, 1)" by (simp add: som_3x1x1_def)
  have tc: "t_const som_3x1x1 \<noteq> 0" by (simp add: som_3x1x1_def)
  have len: "\<forall>v \<in> set [[5::real], [5]]. length v = 1" by simp
  have sc: "schedule (num_iter som_3x1x1) [[5], [5]] = [([5], 0), ([5], 0)]"
    by (simp add: schedule_def py_range_def som_3x1x1_def)
  have run: "teach [[5], [5]] som_3x1x1 =
      (Inr (), update_rule [5] 0 (update_rule [5] 0 som_3x1x1))"
    using teach_applies_the_schedule_in_order[OF wf3_som_3x1x1 sh _ _ len] tc
    by (simp add: sc)
  define s1 where "s1 = update_rule [5] 0 som_3x1x1"
  have ob: "wf3 (weights s1)" "shape3 (weights s1) = (3, 1, 1)"
    using update_rule_object[OF wf3_som_3x1x1 sh, of "[5]" 0] by (simp_all add: s1_def)
  obtain b where b: "get_bmu [5] som_3x1x1 = (Inr b, som_3x1x1)" "find_bmu som_3x1x1 [5] = Some b"
    using get_bmu_find_bmu[OF wf3_som_3x1x1 sh, of "[5]"] by auto
  then have f0: "find_bmu som_3x1x1 [5] = Some (0, 0)"
    using get_bmu_som_3x1x1 by simp
  have c1: "cell s1 0 0 = [5]"
    unfolding s1_def by (rule update_rule_bmu_cell[OF sh _ f0]) simp_all
  have f1: "find_bmu s1 [5] = Some (0, 0)"
    using find_bmu_first_cell[OF ob _ _ _ c1] by simp
  have c2: "cell (update_rule [5] 0 s1) 0 0 = [5]"
    by (rule update_rule_bmu_cell[OF ob(2) _ f1]) simp_all
  have c0: "cell som_3x1x1 0 0 = [0]" by (simp add: cell_def som_3x1x1_def)
  show ?thesis
    using wf3_som_3x1x1 sh tc sc run c0 c2 by (simp add: s1_def)
qed

end
